theory Spec2Isabelle
  imports Complex_Main "HOL-Library.Log_Nat"
begin

section \<open>The JavaScript runtime, as far as the dashboard uses it\<close>

text \<open>
  The model keeps the state the components own (their React state and the two cache
  slots) and what the provider answers. Console output and the notice that
  \<open>deletePullRequest\<close> shows for three seconds are not part of it.

  A thrown value is either an \<open>Error\<close> instance, of which the code reads only the
  \<open>message\<close>, or any other value (\<open>err instanceof Error\<close> is false for it).
\<close>

datatype thrown = Error string | Thrown

text \<open>
  \<open>localStorage\<close> maps keys to strings; \<open>getItem\<close> gives \<open>null\<close> (here \<open>None\<close>) for
  a key that is not stored. Writes are taken to succeed (no quota error).
\<close>

type_synonym Storage = "string \<rightharpoonup> string"

definition getItem :: "Storage \<Rightarrow> string \<Rightarrow> string option" where
  "getItem store k = store k"

definition setItem :: "Storage \<Rightarrow> string \<Rightarrow> string \<Rightarrow> Storage" where
  "setItem store k v = store(k \<mapsto> v)"

text \<open>Truthiness of a \<open>string | null\<close>: \<open>null\<close> and the empty string are falsy.\<close>

definition truthy :: "string option \<Rightarrow> bool" where
  "truthy v = (case v of None \<Rightarrow> False | Some s \<Rightarrow> s \<noteq> [])"

text \<open>\<open>a || b\<close> on strings.\<close>

definition orElse :: "string option \<Rightarrow> string \<Rightarrow> string" where
  "orElse v d = (case v of None \<Rightarrow> d | Some s \<Rightarrow> if s \<noteq> [] then s else d)"

text \<open>
  The library functions the caches go through are parameters of the model, so that every
  theorem holds for whatever the runtime implements:
  \<^item> \<open>JSON_parse\<close> either throws a \<open>SyntaxError\<close> (\<open>Inl\<close> of its message) or gives the
    value; the value is taken at the type the code uses it at (TypeScript types it
    \<open>any\<close>; a payload that parses to a value of another shape is outside the model);
  \<^item> \<open>JSON_stringify\<close>;
  \<^item> \<open>Number\<close> on the timestamp slot: \<open>None\<close> is \<open>NaN\<close>, \<open>Some t\<close> a count of
    milliseconds. Timestamps are integers, as \<open>Date.now()\<close> gives them, far inside the
    range where a double subtracts integers exactly;
  \<^item> \<open>toString\<close> of such a count.
\<close>

record 'v runtime =
  JSON_parse :: "string \<Rightarrow> string + 'v"
  JSON_stringify :: "'v \<Rightarrow> string"
  Number :: "string \<Rightarrow> int option"
  toString :: "int \<Rightarrow> string"

text \<open>
  \<open>Date.now() - Number(lastFetchTime) < ttl\<close>. A comparison with \<open>NaN\<close> is false.
\<close>

definition timeSinceLastFetch :: "int \<Rightarrow> int option \<Rightarrow> int option" where
  "timeSinceLastFetch now t = (case t of None \<Rightarrow> None | Some t' \<Rightarrow> Some (now - t'))"

definition isLess :: "int option \<Rightarrow> int \<Rightarrow> bool" where
  "isLess d ttl = (case d of None \<Rightarrow> False | Some d' \<Rightarrow> d' < ttl)"

text \<open>
  What \<open>await fetch(...)\<close> followed by reading the body comes to: the request rejects;
  or the response is not \<open>ok\<close>, with its status and what \<open>response.json()\<close> gives (it
  throws, or it is an object whose \<open>message\<close> is a string or missing); or the response is
  \<open>ok\<close>, with what \<open>response.json()\<close> or \<open>response.text()\<close> gives.
\<close>

datatype 'a fetched =
    Rejected thrown
  | NotOk nat "thrown + string option"
  | Ok "thrown + 'a"

text \<open>\<open>err instanceof Error ? err.message : fallback\<close>\<close>

definition messageOf :: "thrown \<Rightarrow> string \<Rightarrow> string" where
  "messageOf err fallback = (case err of Error m \<Rightarrow> m | Thrown \<Rightarrow> fallback)"

section \<open>types.ts\<close>

record Commit =
  message :: string
  author :: string
  date :: string
  sha :: string
  commit_url :: string

text \<open>
  \<open>languages\<close> is an object from language name to byte count; it is kept as the list
  \<open>Object.entries\<close> enumerates (keys distinct). Byte counts are natural numbers.
\<close>

record Repository =
  name :: string
  url :: string
  readmeUrl :: string
  description :: string
  languages :: "(string \<times> nat) list"
  lastCommit :: "Commit option"
  readmeContent :: "string option"

section \<open>utils/github.ts\<close>

text \<open>What the provider's JSON holds, as far as the code reads it.\<close>

record api_repo =
  api_name :: string
  api_full_name :: string
  api_html_url :: string
  api_description :: "string option"

record api_commit =
  api_message :: string
  api_author_name :: string
  api_author_date :: string
  api_sha :: string
  api_commit_html_url :: string

text \<open>The provider: one answer per endpoint and per organization or repository name.\<close>

record provider =
  orgRepos :: "string \<Rightarrow> api_repo list fetched"
  repoLanguages :: "string \<Rightarrow> (string \<times> nat) list fetched"
  repoCommits :: "string \<Rightarrow> api_commit list option fetched"
  repoReadme :: "string \<Rightarrow> string fetched"

text \<open>\<open>content.split('\n').slice(0, 4).join('\n')\<close>\<close>

fun split_lines :: "string \<Rightarrow> string \<Rightarrow> string list" where
  "split_lines acc [] = [rev acc]"
| "split_lines acc (c # cs) =
     (if c = CHR 0x0A then rev acc # split_lines [] cs else split_lines (c # acc) cs)"

fun join_lines :: "string list \<Rightarrow> string" where
  "join_lines [] = []"
| "join_lines [l] = l"
| "join_lines (l # ls) = l @ [CHR 0x0A] @ join_lines ls"

definition fetchReadmeContent :: "provider \<Rightarrow> string \<Rightarrow> string option" where
  "fetchReadmeContent p repoFullName =
     (case repoReadme p repoFullName of
        Rejected e \<Rightarrow> None
      | NotOk status b \<Rightarrow> None
      | Ok b \<Rightarrow> (case b of
                  Inl e \<Rightarrow> None
                | Inr content \<Rightarrow> Some (join_lines (take 4 (split_lines [] content)))))"

definition fetchRepoLanguages :: "provider \<Rightarrow> string \<Rightarrow> (string \<times> nat) list" where
  "fetchRepoLanguages p repoFullName =
     (case repoLanguages p repoFullName of
        Rejected e \<Rightarrow> []
      | NotOk status b \<Rightarrow> []
      | Ok b \<Rightarrow> (case b of Inl e \<Rightarrow> [] | Inr langs \<Rightarrow> langs))"

definition fetchLastCommit :: "provider \<Rightarrow> string \<Rightarrow> Commit option" where
  "fetchLastCommit p repoFullName =
     (case repoCommits p repoFullName of
        Rejected e \<Rightarrow> None
      | NotOk status b \<Rightarrow>
          (if status = 409 then None else if status = 404 then None else None)
      | Ok b \<Rightarrow> (case b of
                  Inl e \<Rightarrow> None
                | Inr commits \<Rightarrow> (case commits of
                      None \<Rightarrow> None
                    | Some [] \<Rightarrow> None
                    | Some (c # cs) \<Rightarrow>
                        Some \<lparr> message = api_message c, author = api_author_name c,
                               date = api_author_date c, sha = api_sha c,
                               commit_url = api_commit_html_url c \<rparr>)))"

text \<open>
  A request has failed unless it ends in an \<open>ok\<close> response whose body can be read.
\<close>

definition failed :: "'a fetched \<Rightarrow> bool" where
  "failed r = (case r of Ok (Inr v) \<Rightarrow> False | _ \<Rightarrow> True)"

definition buildRepository :: "provider \<Rightarrow> api_repo \<Rightarrow> Repository" where
  "buildRepository p repo =
     \<lparr> name = api_name repo,
       url = api_html_url repo,
       readmeUrl = api_html_url repo @ ''#readme'',
       description = orElse (api_description repo) ''No description provided'',
       languages = fetchRepoLanguages p (api_full_name repo),
       lastCommit = fetchLastCommit p (api_full_name repo),
       readmeContent = fetchReadmeContent p (api_full_name repo) \<rparr>"

definition fetchOrganizationRepos :: "provider \<Rightarrow> string \<Rightarrow> thrown + Repository list" where
  "fetchOrganizationRepos p orgName =
     (case orgRepos p orgName of
        Rejected e \<Rightarrow> Inl e
      | NotOk status b \<Rightarrow>
          (if status = 404 then
             Inl (Error (''Organization '' @ [CHR 0x22] @ orgName @ [CHR 0x22] @ '' not found''))
           else if status = 403 then
             Inl (Error ''GitHub API rate limit exceeded. Please try again later.'')
           else if status = 401 then
             Inl (Error ''Invalid GitHub token. Please check your authentication settings.'')
           else (case b of
                   Inl e \<Rightarrow> Inl e
                 | Inr msg \<Rightarrow> Inl (Error (orElse msg ''Failed to fetch repositories''))))
      | Ok b \<Rightarrow> (case b of
                  Inl e \<Rightarrow> Inl e
                | Inr repos \<Rightarrow> Inr (map (buildRepository p) repos)))"

section \<open>App: the repository-list cache\<close>

definition ORGANIZATION_NAME :: string where
  "ORGANIZATION_NAME = ''G2HackFest''"

definition CACHE_DURATION :: int where
  "CACHE_DURATION = 25 * 60 * 1000"

text \<open>
  The component's state, the store it shares with the page, and a count of the calls of
  \<open>fetchOrganizationRepos\<close> made so far.
\<close>

record App =
  repositories :: "Repository list"
  error :: "string option"
  loading :: bool
  localStorage :: Storage
  fetches :: nat

text \<open>
  Lines 45 to 50 of the component, run when the cache does not answer: the state they
  leave, and the value thrown if the provider call throws. \<open>later\<close> is what
  \<open>Date.now()\<close> reads when the cache is written.
\<close>

definition refreshRepos ::
  "Repository list runtime \<Rightarrow> provider \<Rightarrow> int \<Rightarrow> App \<Rightarrow> App \<times> thrown option" where
  "refreshRepos rt p later s =
     (case fetchOrganizationRepos p ORGANIZATION_NAME of
        Inl e \<Rightarrow> (s\<lparr>fetches := fetches s + 1\<rparr>, Some e)
      | Inr repos \<Rightarrow>
          (s\<lparr>fetches := fetches s + 1,
             repositories := repos,
             localStorage :=
               setItem (setItem (localStorage s) ''repoData'' (JSON_stringify rt repos))
                 ''lastFetchTime'' (toString rt later)\<rparr>, None))"

text \<open>
  The body of the \<open>try\<close> block. \<open>now\<close> is what \<open>Date.now()\<close> reads at the freshness
  test.
\<close>

definition fetchData_try ::
  "Repository list runtime \<Rightarrow> provider \<Rightarrow> int \<Rightarrow> int \<Rightarrow> App \<Rightarrow> App \<times> thrown option" where
  "fetchData_try rt p now later s0 =
     (let s = s0\<lparr>error := None\<rparr>;
          cachedData = getItem (localStorage s) ''repoData'';
          lastFetchTime = getItem (localStorage s) ''lastFetchTime''
      in case (cachedData, lastFetchTime) of
           (Some c, Some l) \<Rightarrow>
             if c \<noteq> [] \<and> l \<noteq> [] \<and> isLess (timeSinceLastFetch now (Number rt l)) CACHE_DURATION
             then (case JSON_parse rt c of
                     Inl msg \<Rightarrow> (s, Some (Error msg))
                   | Inr v \<Rightarrow> (s\<lparr>repositories := v, loading := False\<rparr>, None))
             else refreshRepos rt p later s
         | _ \<Rightarrow> refreshRepos rt p later s)"

definition fetchData ::
  "Repository list runtime \<Rightarrow> provider \<Rightarrow> int \<Rightarrow> int \<Rightarrow> App \<Rightarrow> App" where
  "fetchData rt p now later s0 =
     (case fetchData_try rt p now later s0 of
        (s, None) \<Rightarrow> s\<lparr>loading := False\<rparr>
      | (s, Some err) \<Rightarrow>
          s\<lparr>error := Some (messageOf err ''Failed to fetch repositories''), loading := False\<rparr>)"

section \<open>AdminDashboard: the pull-request cache and the close operation\<close>

text \<open>
  A pull request as the provider lists it, and as the component keeps it: the same
  object with a \<open>repository\<close> property added (\<open>{...pr, repository: {...}}\<close>).
\<close>

record pr_user =
  login :: string

record pr_repository =
  repo_name :: string
  repo_html_url :: string

record api_pull =
  pr_id :: int
  number :: int
  title :: string
  user :: pr_user
  created_at :: string
  html_url :: string
  state :: string
  body :: string

record PullRequest = api_pull +
  repository :: pr_repository

text \<open>The component's own \<open>Repository\<close> interface.\<close>

record AdminRepository =
  r_id :: int
  r_name :: string
  r_html_url :: string

text \<open>
  The cached object. Every object the component writes has \<open>pullRequests\<close>; it has
  \<open>repositories\<close> unless it was built by spreading an object without one (\<open>None\<close>:
  the property is missing, and reading it gives \<open>undefined\<close>).
\<close>

record cache_data =
  cached_pullRequests :: "PullRequest list"
  cached_repositories :: "AdminRepository list option"

record env =
  VITE_GITHUB_ORG :: "string option"
  VITE_GITHUB_TOKEN :: "string option"

text \<open>
  The provider as the admin view calls it: listing the organization's repositories,
  listing the pull requests of a repository (by name), and the \<open>PATCH\<close> that closes a
  pull request (by repository name and number). The listings of the pull requests run
  concurrently; \<open>settledAt\<close> is the moment at which the listing for a repository
  settles, which the network decides.
\<close>

record admin_provider =
  listRepos :: "AdminRepository list fetched"
  listPulls :: "string \<Rightarrow> api_pull list fetched"
  settledAt :: "string \<Rightarrow> nat"
  patchPull :: "string \<Rightarrow> int \<Rightarrow> unit fetched"

record AdminDashboard =
  pullRequests :: "PullRequest list"
  repositoriesA :: "AdminRepository list option"
  loadingA :: bool
  errorA :: "string option"
  deletingPR :: "int option"
  localStorageA :: Storage
  fetchesA :: nat

definition validateEnvironmentVariables :: "env \<Rightarrow> thrown option" where
  "validateEnvironmentVariables e =
     (if \<not> truthy (VITE_GITHUB_ORG e) \<or> \<not> truthy (VITE_GITHUB_TOKEN e)
      then Some (Error ''Missing required environment variables. Please check your .env file.'')
      else None)"

definition fetchRepositories ::
  "admin_provider \<Rightarrow> AdminDashboard \<Rightarrow> AdminDashboard \<times> (thrown + AdminRepository list)" where
  "fetchRepositories p s0 =
     (let s = s0\<lparr>fetchesA := fetchesA s0 + 1\<rparr>
      in case listRepos p of
           Rejected e \<Rightarrow> (s, Inl e)
         | NotOk status b \<Rightarrow> (s, Inl (Error ''Failed to fetch repositories''))
         | Ok b \<Rightarrow> (case b of
                     Inl e \<Rightarrow> (s, Inl e)
                   | Inr data \<Rightarrow> (s\<lparr>repositoriesA := Some data\<rparr>, Inr data)))"

definition fetchPullRequestsForRepo ::
  "admin_provider \<Rightarrow> AdminRepository \<Rightarrow> thrown + PullRequest list" where
  "fetchPullRequestsForRepo p repo =
     (case listPulls p (r_name repo) of
        Rejected e \<Rightarrow> Inl e
      | NotOk status b \<Rightarrow> Inr []
      | Ok b \<Rightarrow> (case b of
                  Inl e \<Rightarrow> Inl e
                | Inr prs \<Rightarrow>
                    Inr (map (\<lambda>pr. api_pull.extend pr
                           (PullRequest.fields
                              \<lparr>repo_name = r_name repo, repo_html_url = r_html_url repo\<rparr>)) prs)))"

text \<open>
  \<open>Promise.all\<close> on calls that have settled, each paired with the moment it settled:
  the values in the order of the calls when none has rejected, otherwise the rejection
  that came first in time (of two at the same moment, the one of the earlier call).
\<close>

fun rejections :: "(nat \<times> (thrown + 'a)) list \<Rightarrow> (nat \<times> thrown) list" where
  "rejections [] = []"
| "rejections ((t, Inl e) # rest) = (t, e) # rejections rest"
| "rejections ((t, Inr v) # rest) = rejections rest"

fun fulfilled :: "(nat \<times> (thrown + 'a)) list \<Rightarrow> 'a list" where
  "fulfilled [] = []"
| "fulfilled ((t, Inl e) # rest) = fulfilled rest"
| "fulfilled ((t, Inr v) # rest) = v # fulfilled rest"

definition earliest :: "nat \<times> thrown \<Rightarrow> (nat \<times> thrown) list \<Rightarrow> nat \<times> thrown" where
  "earliest r rs = foldl (\<lambda>best x. if fst x < fst best then x else best) r rs"

definition Promise_all :: "(nat \<times> (thrown + 'a)) list \<Rightarrow> thrown + 'a list" where
  "Promise_all calls =
     (case rejections calls of
        [] \<Rightarrow> Inr (fulfilled calls)
      | r # rs \<Rightarrow> Inl (snd (earliest r rs)))"

text \<open>\<open>Promise.all(repos.map((repo) => fetchPullRequestsForRepo(repo)))\<close>\<close>

definition allPullRequests ::
  "admin_provider \<Rightarrow> AdminRepository list \<Rightarrow> thrown + PullRequest list list" where
  "allPullRequests p repos =
     Promise_all (map (\<lambda>repo. (settledAt p (r_name repo), fetchPullRequestsForRepo p repo)) repos)"

text \<open>Lines 118 to 131, run when the cache does not answer.\<close>

definition refreshPulls ::
  "cache_data runtime \<Rightarrow> admin_provider \<Rightarrow> int \<Rightarrow> AdminDashboard \<Rightarrow>
     AdminDashboard \<times> thrown option" where
  "refreshPulls rt p later s0 =
     (case fetchRepositories p s0 of
        (s, Inl e) \<Rightarrow> (s, Some e)
      | (s, Inr repos) \<Rightarrow>
          (case allPullRequests p repos of
             Inl e \<Rightarrow> (s, Some e)
           | Inr allPRs \<Rightarrow>
               (let flattenedPRs = concat allPRs
                in (s\<lparr>pullRequests := flattenedPRs,
                      localStorageA :=
                        setItem
                          (setItem (localStorageA s) ''allPullRequestsData''
                             (JSON_stringify rt
                                \<lparr>cached_pullRequests = flattenedPRs,
                                 cached_repositories = Some repos\<rparr>))
                          ''prLastFetchTime'' (toString rt later)\<rparr>, None))))"

definition fetchAllData_try ::
  "cache_data runtime \<Rightarrow> env \<Rightarrow> admin_provider \<Rightarrow> int \<Rightarrow> int \<Rightarrow> AdminDashboard \<Rightarrow>
     AdminDashboard \<times> thrown option" where
  "fetchAllData_try rt e p now later s0 =
     (let s = s0\<lparr>errorA := None\<rparr>
      in case validateEnvironmentVariables e of
           Some err \<Rightarrow> (s, Some err)
         | None \<Rightarrow>
            (let cachedData = getItem (localStorageA s) ''allPullRequestsData'';
                 lastFetchTime = getItem (localStorageA s) ''prLastFetchTime''
             in case (cachedData, lastFetchTime) of
                  (Some c, Some l) \<Rightarrow>
                    if c \<noteq> [] \<and> l \<noteq> [] \<and>
                       isLess (timeSinceLastFetch now (Number rt l)) (5 * 60 * 1000)
                    then (case JSON_parse rt c of
                            Inl msg \<Rightarrow> (s, Some (Error msg))
                          | Inr data \<Rightarrow>
                              (s\<lparr>pullRequests := cached_pullRequests data,
                                 repositoriesA := cached_repositories data,
                                 loadingA := False\<rparr>, None))
                    else refreshPulls rt p later s
                | _ \<Rightarrow> refreshPulls rt p later s))"

definition fetchAllData ::
  "cache_data runtime \<Rightarrow> env \<Rightarrow> admin_provider \<Rightarrow> int \<Rightarrow> int \<Rightarrow> AdminDashboard \<Rightarrow>
     AdminDashboard" where
  "fetchAllData rt e p now later s0 =
     (case fetchAllData_try rt e p now later s0 of
        (s, None) \<Rightarrow> s\<lparr>loadingA := False\<rparr>
      | (s, Some err) \<Rightarrow>
          s\<lparr>errorA := Some (messageOf err ''Failed to fetch data''), loadingA := False\<rparr>)"

text \<open>
  The local update of \<open>deletePullRequest\<close>:
  \<open>pr.number === prNumber && pr.repository.name === repoName ? {...pr, state: 'closed'} : pr\<close>
\<close>

definition closeLocally :: "int \<Rightarrow> string \<Rightarrow> PullRequest \<Rightarrow> PullRequest" where
  "closeLocally prNumber repoName pr =
     (if number pr = prNumber \<and> repo_name (repository pr) = repoName
      then pr\<lparr>state := ''closed''\<rparr> else pr)"

text \<open>
  \<open>{...cachedData, pullRequests: updatedPRs}\<close>, where \<open>cachedData\<close> is the parsed slot,
  or the empty object when the slot is empty (\<open>None\<close> here).
\<close>

definition withPullRequests :: "cache_data option \<Rightarrow> PullRequest list \<Rightarrow> cache_data" where
  "withPullRequests cachedData updatedPRs =
     (case cachedData of
        None \<Rightarrow> \<lparr>cached_pullRequests = updatedPRs, cached_repositories = None\<rparr>
      | Some d \<Rightarrow> d\<lparr>cached_pullRequests := updatedPRs\<rparr>)"

text \<open>
  \<open>JSON.parse(localStorage.getItem('allPullRequestsData') || '{}')\<close>: the parsed slot,
  or the empty object (\<open>None\<close>) when the slot is \<open>null\<close> or the empty string.
\<close>

definition parseCached :: "cache_data runtime \<Rightarrow> Storage \<Rightarrow> string + cache_data option" where
  "parseCached rt store =
     (case getItem store ''allPullRequestsData'' of
        None \<Rightarrow> Inr None
      | Some str \<Rightarrow> if str = [] then Inr None else map_sum id Some (JSON_parse rt str))"

definition deletePullRequest_try ::
  "cache_data runtime \<Rightarrow> admin_provider \<Rightarrow> int \<Rightarrow> string \<Rightarrow> AdminDashboard \<Rightarrow>
     AdminDashboard \<times> thrown option" where
  "deletePullRequest_try rt p prNumber repoName s0 =
     (let s = s0\<lparr>deletingPR := Some prNumber\<rparr>
      in case patchPull p repoName prNumber of
           Rejected e \<Rightarrow> (s, Some e)
         | NotOk status b \<Rightarrow>
             (case b of
                Inl e \<Rightarrow> (s, Some e)
              | Inr msg \<Rightarrow> (s, Some (Error (orElse msg ''Failed to delete pull request''))))
         | Ok b \<Rightarrow>
             (let updatedPRs = map (closeLocally prNumber repoName) (pullRequests s);
                  s1 = s\<lparr>pullRequests := updatedPRs\<rparr>
              in case parseCached rt (localStorageA s1) of
                   Inl msg \<Rightarrow> (s1, Some (Error msg))
                 | Inr cachedData \<Rightarrow>
                     (s1\<lparr>localStorageA :=
                          setItem (localStorageA s1) ''allPullRequestsData''
                            (JSON_stringify rt (withPullRequests cachedData updatedPRs))\<rparr>,
                      None)))"

definition deletePullRequest ::
  "cache_data runtime \<Rightarrow> admin_provider \<Rightarrow> int \<Rightarrow> string \<Rightarrow> AdminDashboard \<Rightarrow>
     AdminDashboard" where
  "deletePullRequest rt p prNumber repoName s0 =
     (case deletePullRequest_try rt p prNumber repoName s0 of
        (s, None) \<Rightarrow> s\<lparr>deletingPR := None\<rparr>
      | (s, Some err) \<Rightarrow>
          s\<lparr>errorA := Some (messageOf err ''Failed to delete pull request''),
            deletingPR := None\<rparr>)"

section \<open>JavaScript numbers\<close>

text \<open>
  A number is an IEEE 754 double. A finite double is modelled by the rational it denotes;
  \<open>fl\<close> rounds a rational to the nearest double (a significand of 53 bits, ties to the
  even significand), which is what every arithmetic operation of the language does to its
  exact result. The exponent is not bounded here: overflow to \<open>Infinity\<close> and subnormal
  results need magnitudes above \<open>2^1023\<close> or below \<open>2^-1022\<close>, far from the byte counts
  of a repository, their sums and their ratios. The two zeros are not told apart.
\<close>

datatype number = Fin rat | PosInfinity | NegInfinity | NaN

text \<open>\<open>expo x\<close> is the exponent of a positive \<open>x\<close>: \<open>2^e \<le> x < 2^(e+1)\<close>.\<close>

definition expo :: "rat \<Rightarrow> int" where
  "expo x = (let (p, q) = quotient_of x; d = bitlen p - bitlen q
             in if 2 powi d \<le> x then d else d - 1)"

text \<open>Rounding to the nearest integer, a tie going to the even one.\<close>

definition rne :: "rat \<Rightarrow> int" where
  "rne y = (let f = \<lfloor>y\<rfloor>; r = y - of_int f
            in if r < 1 / 2 then f else if 1 / 2 < r then f + 1
               else if even f then f else f + 1)"

text \<open>The distance between neighbouring doubles around a positive \<open>x\<close>.\<close>

definition ulp :: "rat \<Rightarrow> rat" where
  "ulp x = 2 powi (expo x - 52)"

definition fl :: "rat \<Rightarrow> rat" where
  "fl x = (if x = 0 then 0
           else if 0 < x then of_int (rne (x / ulp x)) * ulp x
           else - (of_int (rne (- x / ulp (- x))) * ulp (- x)))"

text \<open>\<open>a + b\<close> on finite numbers.\<close>

definition num_add :: "rat \<Rightarrow> rat \<Rightarrow> rat" where
  "num_add a b = fl (a + b)"

text \<open>\<open>a / b\<close> on finite numbers: \<open>0 / 0\<close> is \<open>NaN\<close>, another \<open>a / 0\<close> is infinite.\<close>

definition num_div :: "rat \<Rightarrow> rat \<Rightarrow> number" where
  "num_div a b =
     (if b = 0 then (if a = 0 then NaN else if 0 < a then PosInfinity else NegInfinity)
      else Fin (fl (a / b)))"

text \<open>\<open>x * c\<close> for a finite \<open>c\<close>.\<close>

definition num_mul :: "number \<Rightarrow> rat \<Rightarrow> number" where
  "num_mul x c =
     (case x of
        Fin a \<Rightarrow> Fin (fl (a * c))
      | PosInfinity \<Rightarrow> (if c = 0 then NaN else if 0 < c then PosInfinity else NegInfinity)
      | NegInfinity \<Rightarrow> (if c = 0 then NaN else if 0 < c then NegInfinity else PosInfinity)
      | NaN \<Rightarrow> NaN)"

text \<open>
  \<open>Math.round\<close>: the nearest integer, a tie going up; \<open>NaN\<close> and the infinities are
  returned as they are.
\<close>

definition Math_round :: "number \<Rightarrow> number" where
  "Math_round x = (case x of Fin a \<Rightarrow> Fin (of_int \<lfloor>a + 1 / 2\<rfloor>) | _ \<Rightarrow> x)"

text \<open>
  The values that the aggregation of the language statistics meets: a finite number; a
  text; a member inherited from \<open>Object.prototype\<close>, which is a function or, for
  \<open>__proto__\<close>, the prototype object itself. A text arises here only from \<open>+\<close> on an
  inherited member, which puts the member's source text (\<open>function ... { [native code] }\<close>,
  or \<open>[object Object]\<close>) in front of the digits of the number; whatever is put
  before or after it later, the text still contains that source text, so it is not empty
  and does not read as a number. Its characters are not modelled: nothing of it reaches
  the result but these two facts.
\<close>

datatype jsvalue = Num rat | NativeText | Inherited

text \<open>\<open>v || 0\<close>; \<open>None\<close> is \<open>undefined\<close>. A text and an inherited member are truthy.\<close>

definition orZero :: "jsvalue option \<Rightarrow> jsvalue" where
  "orZero v =
     (case v of
        None \<Rightarrow> Num 0
      | Some (Num a) \<Rightarrow> if a = 0 then Num 0 else Num a
      | Some NativeText \<Rightarrow> NativeText
      | Some Inherited \<Rightarrow> Inherited)"

text \<open>
  \<open>a + b\<close>: the sum of two numbers; with a text or an inherited member on either side,
  the concatenation of both sides as texts.
\<close>

definition js_add :: "jsvalue \<Rightarrow> jsvalue \<Rightarrow> jsvalue" where
  "js_add a b = (case (a, b) of (Num x, Num y) \<Rightarrow> Num (num_add x y) | _ \<Rightarrow> NativeText)"

text \<open>\<open>a / b\<close>: a text converts to \<open>NaN\<close>, and so the quotient is \<open>NaN\<close>.\<close>

definition js_div :: "jsvalue \<Rightarrow> jsvalue \<Rightarrow> number" where
  "js_div a b = (case (a, b) of (Num x, Num y) \<Rightarrow> num_div x y | _ \<Rightarrow> NaN)"

section \<open>Objects as dictionaries\<close>

text \<open>
  An object used as a dictionary is the list of its own properties in the order
  \<open>Object.entries\<close> enumerates them: keys that are array indices first, in ascending
  numeric order, then the other keys in the order they were created. An object written
  \<open>{}\<close> inherits the members of \<open>Object.prototype\<close>, which are not enumerated but
  are found when a property is read.
\<close>

definition isDigit :: "char \<Rightarrow> bool" where
  "isDigit c = (48 \<le> (of_char c :: int) \<and> (of_char c :: int) \<le> 57)"

definition indexValue :: "string \<Rightarrow> int" where
  "indexValue k = foldl (\<lambda>n c. 10 * n + (of_char c - 48)) 0 k"

definition isArrayIndex :: "string \<Rightarrow> bool" where
  "isArrayIndex k =
     (k \<noteq> [] \<and> list_all isDigit k \<and> (k = ''0'' \<or> hd k \<noteq> CHR ''0'') \<and>
      indexValue k < 4294967295)"

definition comesBefore :: "string \<Rightarrow> string \<Rightarrow> bool" where
  "comesBefore k k' =
     (isArrayIndex k \<and> (\<not> isArrayIndex k' \<or> indexValue k < indexValue k'))"

fun obj_insert :: "(string \<times> 'a) list \<Rightarrow> string \<Rightarrow> 'a \<Rightarrow> (string \<times> 'a) list" where
  "obj_insert [] k v = [(k, v)]"
| "obj_insert ((k', v') # rest) k v =
     (if comesBefore k k' then (k, v) # (k', v') # rest
      else (k', v') # obj_insert rest k v)"

text \<open>\<open>obj[k] = v\<close>: an existing property keeps its place, a new one is created.\<close>

definition obj_set :: "(string \<times> 'a) list \<Rightarrow> string \<Rightarrow> 'a \<Rightarrow> (string \<times> 'a) list" where
  "obj_set obj k v =
     (if k \<in> set (map fst obj)
      then map (\<lambda>(k', v'). if k' = k then (k', v) else (k', v')) obj
      else obj_insert obj k v)"

text \<open>
  The property names of \<open>Object.prototype\<close>. All are methods, writable and not
  enumerable, but \<open>__proto__\<close>, which is a getter and a setter.
\<close>

definition objectPrototypeKeys :: "string list" where
  "objectPrototypeKeys =
     [''constructor'', ''__defineGetter__'', ''__defineSetter__'', ''hasOwnProperty'',
      ''__lookupGetter__'', ''__lookupSetter__'', ''isPrototypeOf'',
      ''propertyIsEnumerable'', ''toString'', ''valueOf'', ''__proto__'',
      ''toLocaleString'']"

text \<open>
  \<open>obj[k]\<close> read on an object written \<open>{}\<close>: the own property, else the inherited
  member, else \<open>undefined\<close>.
\<close>

definition getProperty :: "(string \<times> jsvalue) list \<Rightarrow> string \<Rightarrow> jsvalue option" where
  "getProperty obj k =
     (case map_of obj k of
        Some v \<Rightarrow> Some v
      | None \<Rightarrow> if k \<in> set objectPrototypeKeys then Some Inherited else None)"

text \<open>
  \<open>obj[k] = v\<close> on an object written \<open>{}\<close>, for a number or a text \<open>v\<close>: an own
  property is written, over an inherited method too; the setter \<open>__proto__\<close> ignores a
  value that is neither an object nor \<open>null\<close>, and no property is created.
\<close>

definition setProperty :: "(string \<times> jsvalue) list \<Rightarrow> string \<Rightarrow> jsvalue \<Rightarrow> (string \<times> jsvalue) list" where
  "setProperty obj k v = (if k = ''__proto__'' then obj else obj_set obj k v)"

section \<open>App: the language statistics\<close>

record LanguageStats =
  stat_name :: string
  stat_value :: number
  stat_color :: string

text \<open>\<open>stats[lang] = (stats[lang] || 0) + value\<close>\<close>

definition addLanguage ::
  "(string \<times> jsvalue) list \<Rightarrow> string \<times> nat \<Rightarrow> (string \<times> jsvalue) list" where
  "addLanguage stats entry =
     (case entry of (lang, val) \<Rightarrow>
        setProperty stats lang (js_add (orZero (getProperty stats lang)) (Num (of_nat val))))"

text \<open>The two nested \<open>forEach\<close> loops that fill \<open>stats\<close>.\<close>

definition collectStats :: "Repository list \<Rightarrow> (string \<times> jsvalue) list" where
  "collectStats repos =
     foldl (\<lambda>stats repo. foldl addLanguage stats (languages repo)) [] repos"

definition languageColor :: "string \<Rightarrow> string" where
  "languageColor nm =
     (if nm = ''TypeScript'' then ''#3178c6''
      else if nm = ''JavaScript'' then ''#f7df1e''
      else if nm = ''Python'' then ''#3776ab''
      else if nm = ''Java'' then ''#b07219''
      else if nm = ''Ruby'' then ''#701516''
      else if nm = ''Go'' then ''#00ADD8''
      else ''#6e7681'')"

definition languageStats :: "Repository list \<Rightarrow> LanguageStats list" where
  "languageStats repos =
     (let stats = collectStats repos;
          total = foldl js_add (Num 0) (map snd stats)
      in map (\<lambda>(nm, val).
                \<lparr> stat_name = nm,
                  stat_value = Math_round (num_mul (js_div val total) 100),
                  stat_color = languageColor nm \<rparr>) stats)"

section \<open>RepositoryCard: the language data of one card\<close>

definition languageColors :: "(string \<times> string) list" where
  "languageColors =
     [(''JavaScript'', ''#f7df1e''),
      (''TypeScript'', ''#3178c6''),
      (''Python'', ''#3776ab''),
      (''Java'', ''#b07219''),
      (''Ruby'', ''#701516''),
      (''Go'', ''#00ADD8''),
      (''Rust'', ''#dea584''),
      (''HTML'', ''#e34c26''),
      (''CSS'', ''#563d7c''),
      (''SCSS'', ''#c6538c''),
      (''C'', ''#555555''),
      (''C++'', ''#f34b7d''),
      (''C#'', ''#178600''),
      (''PHP'', ''#4F5D95''),
      (''Swift'', ''#ffac45''),
      (''Kotlin'', ''#F18E33''),
      (''Dart'', ''#00B4AB''),
      (''Shell'', ''#89e051''),
      (''PowerShell'', ''#012456''),
      (''Vue'', ''#41b883''),
      (''Svelte'', ''#ff3e00''),
      (''Lua'', ''#000080''),
      (''Perl'', ''#0298c3''),
      (''R'', ''#198CE7''),
      (''Julia'', ''#a270ba''),
      (''Haskell'', ''#5e5086''),
      (''Elixir'', ''#6e4a7e''),
      (''Assembly'', ''#6E4C13''),
      (''MATLAB'', ''#e16737''),
      (''Groovy'', ''#4298b8''),
      (''Scala'', ''#c22d40''),
      (''Objective-C'', ''#438eff''),
      (''CoffeeScript'', ''#244776''),
      (''Clojure'', ''#db5855''),
      (''Erlang'', ''#B83998''),
      (''OCaml'', ''#3be133''),
      (''Fortran'', ''#4d41b1'')]"

text \<open>
  \<open>languages\<close> is the parsed answer of the provider, given by its entries. The color
  is \<open>languageColors[name] || '#6e7681'\<close>; for a name that is a property of
  \<open>Object.prototype\<close> the table answers with the inherited member, which is not a
  color and has no place in the record: the definition is about the other names.
\<close>

definition languageData :: "(string \<times> nat) list \<Rightarrow> LanguageStats list" where
  "languageData langs =
     (let total = foldl num_add 0 (map (\<lambda>(nm, val). of_nat val) langs)
      in map (\<lambda>(nm, val).
                \<lparr> stat_name = nm,
                  stat_value = Math_round (num_mul (num_div (of_nat val) total) 100),
                  stat_color = orElse (map_of languageColors nm) ''#6e7681'' \<rparr>) langs)"

section \<open>The aggregation in exact arithmetic\<close>

text \<open>
  What the aggregation is meant to compute, in exact arithmetic; the properties of
  \<open>languageStats\<close> are stated against these. \<open>exactStats\<close> is the accumulation of
  \<open>collectStats\<close> with natural-number addition in place of the addition of doubles,
  into a dictionary that inherits nothing.
\<close>

definition lookup0 :: "(string \<times> nat) list \<Rightarrow> string \<Rightarrow> nat" where
  "lookup0 st k = (case map_of st k of None \<Rightarrow> 0 | Some n \<Rightarrow> n)"

definition addExact :: "(string \<times> nat) list \<Rightarrow> string \<times> nat \<Rightarrow> (string \<times> nat) list" where
  "addExact st entry = (case entry of (lang, val) \<Rightarrow> obj_set st lang (lookup0 st lang + val))"

definition exactStats :: "Repository list \<Rightarrow> (string \<times> nat) list" where
  "exactStats repos = foldl addExact [] (concat (map languages repos))"

text \<open>The sum of one language's byte counts over all repositories, and the grand total.\<close>

definition languageTotal :: "Repository list \<Rightarrow> string \<Rightarrow> nat" where
  "languageTotal repos nm =
     (\<Sum>repo\<leftarrow>repos. \<Sum>entry\<leftarrow>languages repo. if fst entry = nm then snd entry else 0)"

definition grandTotal :: "Repository list \<Rightarrow> nat" where
  "grandTotal repos = (\<Sum>repo\<leftarrow>repos. \<Sum>entry\<leftarrow>languages repo. snd entry)"

definition languageNames :: "Repository list \<Rightarrow> string set" where
  "languageNames repos = (\<Union>repo\<in>set repos. fst ` set (languages repo))"

text \<open>The exact, unrounded percentage share of a language.\<close>

definition share :: "Repository list \<Rightarrow> string \<Rightarrow> rat" where
  "share repos nm = 100 * of_nat (languageTotal repos nm) / of_nat (grandTotal repos)"

text \<open>A number lies exactly halfway between two integers.\<close>

definition isTie :: "rat \<Rightarrow> bool" where
  "isTie x = (of_int \<lfloor>x\<rfloor> + 1 / 2 = x)"

text \<open>The natural numbers as doubles, entry by entry.\<close>

definition emb :: "(string \<times> nat) list \<Rightarrow> (string \<times> jsvalue) list" where
  "emb st = map (\<lambda>(k, n). (k, Num (of_nat n))) st"

text \<open>No language name of the repositories is a property name of \<open>Object.prototype\<close>.\<close>

definition ordinaryNames :: "Repository list \<Rightarrow> bool" where
  "ordinaryNames repos =
     list_all (\<lambda>repo. list_all (\<lambda>entry. fst entry \<notin> set objectPrototypeKeys) (languages repo))
       repos"

text \<open>\<open>Math.round((value / total) * 100)\<close> on two byte counts.\<close>

definition percentage :: "nat \<Rightarrow> nat \<Rightarrow> number" where
  "percentage val tot = Math_round (num_mul (num_div (of_nat val) (of_nat tot)) 100)"

text \<open>The value of a finite number (0 for the others), to add percentages up.\<close>

definition finiteValue :: "number \<Rightarrow> rat" where
  "finiteValue x = (case x of Fin a \<Rightarrow> a | _ \<Rightarrow> 0)"

section \<open>Sample inputs\<close>

text \<open>
  A runtime, providers and states at which the theorems below are evaluated. The sample
  runtimes know the few strings the samples store.
\<close>

definition sample_runtime :: "Repository list runtime" where
  "sample_runtime =
     \<lparr> JSON_parse = (\<lambda>s. if s = ''[]'' then Inr [] else Inl ''Unexpected end of JSON input''),
       JSON_stringify = (\<lambda>v. if v = [] then ''[]'' else ''[{}]''),
       Number = (\<lambda>s. if s = ''1000'' then Some 1000
                      else if s = ''400000'' then Some 400000 else None),
       toString = (\<lambda>n. if n = 1000 then ''1000''
                        else if n = 400000 then ''400000'' else ''0'') \<rparr>"

definition sample_api_repo :: api_repo where
  "sample_api_repo =
     \<lparr> api_name = ''demo'', api_full_name = ''G2HackFest/demo'',
       api_html_url = ''https://github.com/G2HackFest/demo'', api_description = None \<rparr>"

definition sample_provider_of :: "api_repo list fetched \<Rightarrow> provider" where
  "sample_provider_of answer =
     \<lparr> orgRepos = (\<lambda>org. answer),
       repoLanguages = (\<lambda>r. Rejected Thrown),
       repoCommits = (\<lambda>r. NotOk 409 (Inl Thrown)),
       repoReadme = (\<lambda>r. NotOk 404 (Inl Thrown)) \<rparr>"

definition sample_provider :: provider where
  "sample_provider = sample_provider_of (Rejected (Error ''Failed to fetch''))"

definition sample_App :: "string \<Rightarrow> string \<Rightarrow> App" where
  "sample_App payload stamp =
     \<lparr> repositories = [], error = None, loading = True,
       localStorage = [''repoData'' \<mapsto> payload, ''lastFetchTime'' \<mapsto> stamp],
       fetches = 0 \<rparr>"

definition sample_pull :: PullRequest where
  "sample_pull =
     \<lparr> pr_id = 1, number = 7, title = ''Fix the build'', user = \<lparr>login = ''octocat''\<rparr>,
       created_at = ''2024-01-01T00:00:00Z'', html_url = ''https://github.com/G2HackFest/demo/pull/7'',
       state = ''open'', body = [],
       repository = \<lparr>repo_name = ''demo'', repo_html_url = ''https://github.com/G2HackFest/demo''\<rparr> \<rparr>"

definition sample_repo :: AdminRepository where
  "sample_repo = \<lparr> r_id = 3, r_name = ''demo'', r_html_url = ''https://github.com/G2HackFest/demo'' \<rparr>"

definition sample_cache :: cache_data where
  "sample_cache = \<lparr> cached_pullRequests = [sample_pull], cached_repositories = Some [sample_repo] \<rparr>"

definition sample_closed_cache :: cache_data where
  "sample_closed_cache =
     sample_cache\<lparr>cached_pullRequests := [sample_pull\<lparr>state := ''closed''\<rparr>]\<rparr>"

definition sample_admin_runtime :: "cache_data runtime" where
  "sample_admin_runtime =
     \<lparr> JSON_parse = (\<lambda>s. if s = ''cached'' then Inr sample_cache
                          else if s = ''closed'' then Inr sample_closed_cache
                          else Inl ''Unexpected end of JSON input''),
       JSON_stringify = (\<lambda>d. if d = sample_cache then ''cached''
                              else if d = sample_closed_cache then ''closed'' else ''written''),
       Number = (\<lambda>s. if s = ''1000'' then Some 1000
                      else if s = ''400000'' then Some 400000 else None),
       toString = (\<lambda>n. if n = 1000 then ''1000''
                        else if n = 400000 then ''400000'' else ''0'') \<rparr>"

definition sample_env :: env where
  "sample_env = \<lparr> VITE_GITHUB_ORG = Some ''G2HackFest'', VITE_GITHUB_TOKEN = Some ''token'' \<rparr>"

definition sample_admin_provider :: "AdminRepository list fetched \<Rightarrow> api_pull list fetched \<Rightarrow> admin_provider" where
  "sample_admin_provider repos pulls =
     \<lparr> listRepos = repos, listPulls = (\<lambda>r. pulls), settledAt = (\<lambda>r. 0),
       patchPull = (\<lambda>r n. Ok (Inr ())) \<rparr>"

definition sample_Admin :: "string \<Rightarrow> string \<Rightarrow> AdminDashboard" where
  "sample_Admin payload stamp =
     \<lparr> pullRequests = [sample_pull], repositoriesA = Some [], loadingA = True, errorA = None,
       deletingPR = None,
       localStorageA = [''allPullRequestsData'' \<mapsto> payload, ''prLastFetchTime'' \<mapsto> stamp],
       fetchesA = 0 \<rparr>"

definition repo_with :: "(string \<times> nat) list \<Rightarrow> Repository" where
  "repo_with langs =
     \<lparr> name = ''demo'', url = ''https://github.com/G2HackFest/demo'',
       readmeUrl = ''https://github.com/G2HackFest/demo#readme'',
       description = ''No description provided'',
       languages = langs, lastCommit = None, readmeContent = None \<rparr>"

definition two_pulls :: AdminDashboard where
  "two_pulls =
     (sample_Admin ''cached'' ''1000'')
       \<lparr>pullRequests := [sample_pull, sample_pull\<lparr>number := 8\<rparr>]\<rparr>"

definition thirds :: "Repository list" where
  "thirds = [repo_with [(''A'', 1), (''B'', 1), (''C'', 1)]]"

definition halves :: "Repository list" where
  "halves = [repo_with [(''A'', 100)], repo_with [(''B'', 100)]]"

definition tie_57 :: "Repository list" where
  "tie_57 = [repo_with [(''A'', 23), (''B'', 17)]]"

definition huge :: "Repository list" where
  "huge = [repo_with [(''A'', 34199312414287), (''B'', 8818690622552)]]"

definition inherited_name :: "Repository list" where
  "inherited_name = [repo_with [(''constructor'', 5)]]"

definition proto_name :: "Repository list" where
  "proto_name = [repo_with [(''__proto__'', 5), (''A'', 5)]]"

section \<open>The caches\<close>

lemmas cache_defs = getItem_def setItem_def isLess_def timeSinceLastFetch_def messageOf_def
  CACHE_DURATION_def orElse_def

lemmas sample_defs = sample_runtime_def sample_provider_def sample_provider_of_def
  sample_api_repo_def sample_App_def sample_pull_def
  sample_repo_def sample_cache_def sample_closed_cache_def sample_admin_runtime_def sample_env_def
  sample_admin_provider_def sample_Admin_def validateEnvironmentVariables_def truthy_def

lemma fetchData_fresh:
  assumes "localStorage s ''repoData'' = Some c" "c \<noteq> []"
      and "localStorage s ''lastFetchTime'' = Some l" "l \<noteq> []"
      and "Number rt l = Some t" "now - t < 25 * 60 * 1000"
  shows "fetchData rt p now later s =
           (case JSON_parse rt c of
              Inl msg \<Rightarrow> s\<lparr>error := Some msg, loading := False\<rparr>
            | Inr v \<Rightarrow> s\<lparr>repositories := v, error := None, loading := False\<rparr>)"
  using assms
  by (simp add: fetchData_def fetchData_try_def cache_defs split: sum.splits)

lemma fetchData_stale:
  assumes "localStorage s ''repoData'' = Some c"
      and "localStorage s ''lastFetchTime'' = Some l"
      and "\<And>t. Number rt l = Some t \<Longrightarrow> \<not> now - t < 25 * 60 * 1000"
  shows "fetchData_try rt p now later s = refreshRepos rt p later (s\<lparr>error := None\<rparr>)"
  using assms
  by (cases "Number rt l") (simp_all add: fetchData_try_def cache_defs Let_def)


lemma refreshRepos_done:
  "fetchOrganizationRepos p ORGANIZATION_NAME = Inr repos \<Longrightarrow>
     refreshRepos rt p later s =
       (s\<lparr>fetches := fetches s + 1, repositories := repos,
          localStorage := (localStorage s)(''repoData'' \<mapsto> JSON_stringify rt repos,
                             ''lastFetchTime'' \<mapsto> toString rt later)\<rparr>, None)"
  by (simp add: refreshRepos_def setItem_def)

lemma fetches_refreshRepos:
  "fetches (fst (refreshRepos rt p later s)) = fetches s + 1"
  by (simp add: refreshRepos_def split: sum.splits)

lemma fetches_fetchData:
  "fetches (fetchData rt p now later s) = fetches (fst (fetchData_try rt p now later s))"
  by (simp add: fetchData_def split: prod.splits option.splits)

lemma fetchData_final:
  "fetchData_try rt p now later s = (s', r) \<Longrightarrow>
   fetchData rt p now later s =
     (case r of None \<Rightarrow> s'\<lparr>loading := False\<rparr>
      | Some err \<Rightarrow> s'\<lparr>error := Some (messageOf err ''Failed to fetch repositories''),
                      loading := False\<rparr>)"
  by (simp add: fetchData_def split: option.splits)

lemma fetchAllData_final:
  "fetchAllData_try rt e p now later a = (a', r) \<Longrightarrow>
   fetchAllData rt e p now later a =
     (case r of None \<Rightarrow> a'\<lparr>loadingA := False\<rparr>
      | Some err \<Rightarrow> a'\<lparr>errorA := Some (messageOf err ''Failed to fetch data''),
                      loadingA := False\<rparr>)"
  by (simp add: fetchAllData_def split: option.splits)

lemma fetchAllData_fresh:
  assumes "validateEnvironmentVariables e = None"
      and "localStorageA a ''allPullRequestsData'' = Some c" "c \<noteq> []"
      and "localStorageA a ''prLastFetchTime'' = Some l" "l \<noteq> []"
      and "Number rt l = Some t" "now - t < 5 * 60 * 1000"
  shows "fetchAllData rt e p now later a =
           (case JSON_parse rt c of
              Inl msg \<Rightarrow> a\<lparr>errorA := Some msg, loadingA := False\<rparr>
            | Inr d \<Rightarrow> a\<lparr>pullRequests := cached_pullRequests d,
                          repositoriesA := cached_repositories d,
                          errorA := None, loadingA := False\<rparr>)"
  using assms
  by (simp add: fetchAllData_def fetchAllData_try_def cache_defs split: sum.splits)

lemma fetchAllData_stale:
  assumes "validateEnvironmentVariables e = None"
      and "localStorageA a ''allPullRequestsData'' = Some c"
      and "localStorageA a ''prLastFetchTime'' = Some l"
      and "\<And>t. Number rt l = Some t \<Longrightarrow> \<not> now - t < 5 * 60 * 1000"
  shows "fetchAllData_try rt e p now later a = refreshPulls rt p later (a\<lparr>errorA := None\<rparr>)"
  using assms
  by (cases "Number rt l") (simp_all add: fetchAllData_try_def cache_defs Let_def)

lemma fetchRepositories_cases:
  "fetchRepositories p a =
     (case snd (fetchRepositories p a) of
        Inl err \<Rightarrow> (a\<lparr>fetchesA := fetchesA a + 1\<rparr>, Inl err)
      | Inr data \<Rightarrow> (a\<lparr>fetchesA := fetchesA a + 1, repositoriesA := Some data\<rparr>, Inr data))"
  by (simp add: fetchRepositories_def Let_def split: fetched.splits sum.splits)


lemma refreshPulls_cases:
  "refreshPulls rt p later a =
     (case snd (fetchRepositories p a) of
        Inl err \<Rightarrow> (a\<lparr>fetchesA := fetchesA a + 1\<rparr>, Some err)
      | Inr repos \<Rightarrow>
          (case allPullRequests p repos of
             Inl err \<Rightarrow> (a\<lparr>fetchesA := fetchesA a + 1, repositoriesA := Some repos\<rparr>, Some err)
           | Inr allPRs \<Rightarrow>
               (a\<lparr>fetchesA := fetchesA a + 1, repositoriesA := Some repos,
                  pullRequests := concat allPRs,
                  localStorageA := (localStorageA a)
                    (''allPullRequestsData'' \<mapsto>
                       JSON_stringify rt \<lparr>cached_pullRequests = concat allPRs,
                                          cached_repositories = Some repos\<rparr>,
                     ''prLastFetchTime'' \<mapsto> toString rt later)\<rparr>, None)))"
  unfolding refreshPulls_def
  by (subst fetchRepositories_cases) (simp add: setItem_def Let_def split: sum.splits)

lemma fetchesA_refreshPulls:
  "fetchesA (fst (refreshPulls rt p later a)) = fetchesA a + 1"
  by (simp add: refreshPulls_cases split: sum.splits)

lemma fetchesA_fetchAllData:
  "fetchesA (fetchAllData rt e p now later a) = fetchesA (fst (fetchAllData_try rt e p now later a))"
  by (simp add: fetchAllData_def split: prod.splits option.splits)





text \<open>
  Claim C1. A stored cache entry has a payload and a timestamp, both non-empty, the
  payload being what \<open>JSON.stringify\<close> wrote and the timestamp a count of milliseconds.
  For the repository-list cache (25 minutes) and for the pull-request cache (5 minutes):
  when \<open>now - capturedAt\<close> is strictly below the TTL the parsed payload becomes the
  displayed data and nothing else changes, in particular no fetch is made and the store is
  left alone; otherwise the refresh runs and one more fetch is counted. So no fetch is
  made if and only if \<open>now - capturedAt < TTL\<close>.
\<close>

theorem cached_payload_used_iff_fresh:
  assumes "localStorage s ''repoData'' = Some c" "c \<noteq> []" "JSON_parse rt c = Inr v"
      and "localStorage s ''lastFetchTime'' = Some l" "l \<noteq> []" "Number rt l = Some t"
      and "validateEnvironmentVariables e = None"
      and "localStorageA a ''allPullRequestsData'' = Some c'" "c' \<noteq> []" "JSON_parse rt' c' = Inr d"
      and "localStorageA a ''prLastFetchTime'' = Some l'" "l' \<noteq> []" "Number rt' l' = Some t'"
  shows "(now - t < 25 * 60 * 1000 \<longrightarrow>
            fetchData rt p now later s = s\<lparr>repositories := v, error := None, loading := False\<rparr>) \<and>
         (\<not> now - t < 25 * 60 * 1000 \<longrightarrow>
            fetches (fetchData rt p now later s) = fetches s + 1 \<and>
            fetchData_try rt p now later s = refreshRepos rt p later (s\<lparr>error := None\<rparr>)) \<and>
         (fetches (fetchData rt p now later s) = fetches s \<longleftrightarrow> now - t < 25 * 60 * 1000) \<and>
         (now - t' < 5 * 60 * 1000 \<longrightarrow>
            fetchAllData rt' e q now later a =
              a\<lparr>pullRequests := cached_pullRequests d, repositoriesA := cached_repositories d,
                errorA := None, loadingA := False\<rparr>) \<and>
         (\<not> now - t' < 5 * 60 * 1000 \<longrightarrow>
            fetchesA (fetchAllData rt' e q now later a) = fetchesA a + 1 \<and>
            fetchAllData_try rt' e q now later a = refreshPulls rt' q later (a\<lparr>errorA := None\<rparr>)) \<and>
         (fetchesA (fetchAllData rt' e q now later a) = fetchesA a \<longleftrightarrow> now - t' < 5 * 60 * 1000)"
proof -
  have fresh: "fetchData rt p now later s = s\<lparr>repositories := v, error := None, loading := False\<rparr>"
    if "now - t < 25 * 60 * 1000"
    using fetchData_fresh [of s c l rt t now p later] assms that by simp
  have stale: "fetchData_try rt p now later s = refreshRepos rt p later (s\<lparr>error := None\<rparr>)"
    if "\<not> now - t < 25 * 60 * 1000"
    using fetchData_stale [of s c l rt now p later] assms that by simp
  have stale_n: "fetches (fetchData rt p now later s) = fetches s + 1"
    if "\<not> now - t < 25 * 60 * 1000"
    using stale [OF that] by (simp add: fetches_fetchData fetches_refreshRepos)
  have freshA: "fetchAllData rt' e q now later a =
      a\<lparr>pullRequests := cached_pullRequests d, repositoriesA := cached_repositories d,
        errorA := None, loadingA := False\<rparr>"
    if "now - t' < 5 * 60 * 1000"
    using fetchAllData_fresh [of e a c' l' rt' t' now q later] assms that by simp
  have staleA: "fetchAllData_try rt' e q now later a = refreshPulls rt' q later (a\<lparr>errorA := None\<rparr>)"
    if "\<not> now - t' < 5 * 60 * 1000"
    using fetchAllData_stale [of e a c' l' rt' now q later] assms that by simp
  have staleA_n: "fetchesA (fetchAllData rt' e q now later a) = fetchesA a + 1"
    if "\<not> now - t' < 5 * 60 * 1000"
    using staleA [OF that] by (simp add: fetchesA_fetchAllData fetchesA_refreshPulls)
  have iff: "fetches (fetchData rt p now later s) = fetches s \<longleftrightarrow> now - t < 25 * 60 * 1000"
    using fresh stale_n by (cases "now - t < 25 * 60 * 1000") simp_all
  have iffA: "fetchesA (fetchAllData rt' e q now later a) = fetchesA a \<longleftrightarrow> now - t' < 5 * 60 * 1000"
    using freshA staleA_n by (cases "now - t' < 5 * 60 * 1000") simp_all
  show ?thesis
    using fresh stale stale_n freshA staleA staleA_n iff iffA by blast
qed

theorem cached_payload_used_iff_fresh_witness:
  "fetchData sample_runtime sample_provider 1500999 1500999 (sample_App ''[]'' ''1000'') =
     (sample_App ''[]'' ''1000'')\<lparr>repositories := [], error := None, loading := False\<rparr> \<and>
   fetches (fetchData sample_runtime sample_provider 1501000 1501000 (sample_App ''[]'' ''1000'')) = 1 \<and>
   fetchAllData sample_admin_runtime sample_env (sample_admin_provider (Rejected Thrown) (Rejected Thrown))
       300999 300999 (sample_Admin ''cached'' ''1000'') =
     (sample_Admin ''cached'' ''1000'')
       \<lparr>pullRequests := [sample_pull], repositoriesA := Some [sample_repo],
        errorA := None, loadingA := False\<rparr> \<and>
   fetchesA (fetchAllData sample_admin_runtime sample_env
       (sample_admin_provider (Rejected Thrown) (Rejected Thrown))
       301000 301000 (sample_Admin ''cached'' ''1000'')) = 1"
proof -
  have app: "localStorage (sample_App ''[]'' ''1000'') ''repoData'' = Some ''[]''"
    "''[]'' \<noteq> []" "JSON_parse sample_runtime ''[]'' = Inr []"
    "localStorage (sample_App ''[]'' ''1000'') ''lastFetchTime'' = Some ''1000''"
    "''1000'' \<noteq> []" "Number sample_runtime ''1000'' = Some 1000"
    by (simp_all add: sample_defs)
  have adm: "validateEnvironmentVariables sample_env = None"
    "localStorageA (sample_Admin ''cached'' ''1000'') ''allPullRequestsData'' = Some ''cached''"
    "''cached'' \<noteq> []" "JSON_parse sample_admin_runtime ''cached'' = Inr sample_cache"
    "localStorageA (sample_Admin ''cached'' ''1000'') ''prLastFetchTime'' = Some ''1000''"
    "''1000'' \<noteq> []" "Number sample_admin_runtime ''1000'' = Some 1000"
    by (simp_all add: sample_defs)
  note fresh = cached_payload_used_iff_fresh [OF app adm, of 1500999 sample_provider 1500999]
  note stale = cached_payload_used_iff_fresh [OF app adm, of 1501000 sample_provider 1501000]
  note freshA = cached_payload_used_iff_fresh [OF app adm, of 300999 sample_provider 300999
      "sample_admin_provider (Rejected Thrown) (Rejected Thrown)"]
  note staleA = cached_payload_used_iff_fresh [OF app adm, of 301000 sample_provider 301000
      "sample_admin_provider (Rejected Thrown) (Rejected Thrown)"]
  have 1: "fetchData sample_runtime sample_provider 1500999 1500999 (sample_App ''[]'' ''1000'') =
     (sample_App ''[]'' ''1000'')\<lparr>repositories := [], error := None, loading := False\<rparr>"
    using fresh by simp
  have 2: "fetches (fetchData sample_runtime sample_provider 1501000 1501000 (sample_App ''[]'' ''1000'')) = 1"
    using stale by (simp add: sample_App_def)
  have 3: "fetchAllData sample_admin_runtime sample_env (sample_admin_provider (Rejected Thrown) (Rejected Thrown))
       300999 300999 (sample_Admin ''cached'' ''1000'') =
     (sample_Admin ''cached'' ''1000'')
       \<lparr>pullRequests := [sample_pull], repositoriesA := Some [sample_repo],
        errorA := None, loadingA := False\<rparr>"
    using freshA by (simp add: sample_cache_def)
  have 4: "fetchesA (fetchAllData sample_admin_runtime sample_env
       (sample_admin_provider (Rejected Thrown) (Rejected Thrown))
       301000 301000 (sample_Admin ''cached'' ''1000'')) = 1"
    using staleA by (simp add: sample_Admin_def)
  show ?thesis using 1 2 3 4 by blast
qed

text \<open>
  Claim C2, as the code has it. A payload that cannot be parsed is not treated as a miss
  while its timestamp is fresh: at the sample below the entry is 1000 milliseconds old, the
  parse error becomes the error message and no fetch is made, where a missing payload
  leads to a fetch.
\<close>

theorem corrupt_payload_not_a_miss:
  "fetchData sample_runtime sample_provider 2000 2000 (sample_App ''{'' ''1000'') =
     (sample_App ''{'' ''1000'')\<lparr>error := Some ''Unexpected end of JSON input'', loading := False\<rparr> \<and>
   JSON_parse sample_runtime ''{'' = Inl ''Unexpected end of JSON input'' \<and>
   fetches (fetchData sample_runtime sample_provider 2000 2000 (sample_App ''{'' ''1000'')) = 0 \<and>
   fetches (fetchData sample_runtime sample_provider 2000 2000 (sample_App [] ''1000'')) = 1"
  by (simp add: fetchData_def fetchData_try_def refreshRepos_def fetchOrganizationRepos_def
      ORGANIZATION_NAME_def cache_defs sample_defs)

text \<open>
  Claim C2, amended. With a payload that cannot be parsed and a timestamp stored, in
  either cache: while the entry is fresh the parse error is caught, its message is shown
  as the error, no fetch is made, and the displayed data and the store stay as they
  were; once the entry is no longer fresh (or its timestamp is not a number) the payload
  is not read at all and the refresh runs exactly as it does on a miss.
\<close>

theorem corrupt_payload:
  assumes "localStorage s ''repoData'' = Some c" "c \<noteq> []" "JSON_parse rt c = Inl msg"
      and "localStorage s ''lastFetchTime'' = Some l" "l \<noteq> []"
      and "validateEnvironmentVariables e = None"
      and "localStorageA a ''allPullRequestsData'' = Some c'" "c' \<noteq> []" "JSON_parse rt' c' = Inl msg'"
      and "localStorageA a ''prLastFetchTime'' = Some l'" "l' \<noteq> []"
  shows "(if isLess (timeSinceLastFetch now (Number rt l)) (25 * 60 * 1000)
          then fetchData rt p now later s = s\<lparr>error := Some msg, loading := False\<rparr>
          else fetchData_try rt p now later s = refreshRepos rt p later (s\<lparr>error := None\<rparr>) \<and>
               fetches (fetchData rt p now later s) = fetches s + 1) \<and>
         (if isLess (timeSinceLastFetch now (Number rt' l')) (5 * 60 * 1000)
          then fetchAllData rt' e q now later a = a\<lparr>errorA := Some msg', loadingA := False\<rparr>
          else fetchAllData_try rt' e q now later a = refreshPulls rt' q later (a\<lparr>errorA := None\<rparr>) \<and>
               fetchesA (fetchAllData rt' e q now later a) = fetchesA a + 1)"
proof -
  have app_try: "fetchData_try rt p now later s =
      (if isLess (timeSinceLastFetch now (Number rt l)) (25 * 60 * 1000)
       then (s\<lparr>error := None\<rparr>, Some (Error msg))
       else refreshRepos rt p later (s\<lparr>error := None\<rparr>))"
    using assms by (simp add: fetchData_try_def getItem_def CACHE_DURATION_def Let_def)
  have adm_try: "fetchAllData_try rt' e q now later a =
      (if isLess (timeSinceLastFetch now (Number rt' l')) (5 * 60 * 1000)
       then (a\<lparr>errorA := None\<rparr>, Some (Error msg'))
       else refreshPulls rt' q later (a\<lparr>errorA := None\<rparr>))"
    using assms by (simp add: fetchAllData_try_def getItem_def Let_def)
  have app: "fetchData rt p now later s = s\<lparr>error := Some msg, loading := False\<rparr>"
    if "isLess (timeSinceLastFetch now (Number rt l)) (25 * 60 * 1000)"
    using that app_try by (simp add: fetchData_def messageOf_def)
  have adm: "fetchAllData rt' e q now later a = a\<lparr>errorA := Some msg', loadingA := False\<rparr>"
    if "isLess (timeSinceLastFetch now (Number rt' l')) (5 * 60 * 1000)"
    using that adm_try by (simp add: fetchAllData_def messageOf_def)
  have app_n: "fetches (fetchData rt p now later s) = fetches s + 1"
    if "\<not> isLess (timeSinceLastFetch now (Number rt l)) (25 * 60 * 1000)"
    using that app_try by (simp add: fetches_fetchData fetches_refreshRepos)
  have adm_n: "fetchesA (fetchAllData rt' e q now later a) = fetchesA a + 1"
    if "\<not> isLess (timeSinceLastFetch now (Number rt' l')) (5 * 60 * 1000)"
    using that adm_try by (simp add: fetchesA_fetchAllData fetchesA_refreshPulls)
  show ?thesis
    using app adm app_n adm_n app_try adm_try by simp
qed

theorem corrupt_payload_witness:
  "fetchData sample_runtime sample_provider 2000 2000 (sample_App ''{'' ''1000'') =
     (sample_App ''{'' ''1000'')\<lparr>error := Some ''Unexpected end of JSON input'', loading := False\<rparr> \<and>
   fetches (fetchData sample_runtime sample_provider 1501000 1501000 (sample_App ''{'' ''1000'')) = 1 \<and>
   fetchAllData sample_admin_runtime sample_env (sample_admin_provider (Rejected Thrown) (Rejected Thrown))
       2000 2000 (sample_Admin ''{'' ''1000'') =
     (sample_Admin ''{'' ''1000'')\<lparr>errorA := Some ''Unexpected end of JSON input'', loadingA := False\<rparr> \<and>
   fetchesA (fetchAllData sample_admin_runtime sample_env
       (sample_admin_provider (Rejected Thrown) (Rejected Thrown))
       301000 301000 (sample_Admin ''{'' ''1000'')) = 1"
proof -
  have app: "localStorage (sample_App ''{'' ''1000'') ''repoData'' = Some ''{''"
    "''{'' \<noteq> []" "JSON_parse sample_runtime ''{'' = Inl ''Unexpected end of JSON input''"
    "localStorage (sample_App ''{'' ''1000'') ''lastFetchTime'' = Some ''1000''"
    "''1000'' \<noteq> []"
    by (simp_all add: sample_defs)
  have adm: "validateEnvironmentVariables sample_env = None"
    "localStorageA (sample_Admin ''{'' ''1000'') ''allPullRequestsData'' = Some ''{''"
    "''{'' \<noteq> []" "JSON_parse sample_admin_runtime ''{'' = Inl ''Unexpected end of JSON input''"
    "localStorageA (sample_Admin ''{'' ''1000'') ''prLastFetchTime'' = Some ''1000''"
    "''1000'' \<noteq> []"
    by (simp_all add: sample_defs)
  have n: "Number sample_runtime ''1000'' = Some 1000" "Number sample_admin_runtime ''1000'' = Some 1000"
    by (simp_all add: sample_defs)
  note fresh = corrupt_payload [OF app adm, of 2000 sample_provider 2000
      "sample_admin_provider (Rejected Thrown) (Rejected Thrown)"]
  note stale = corrupt_payload [OF app adm, of 1501000 sample_provider 1501000
      "sample_admin_provider (Rejected Thrown) (Rejected Thrown)"]
  note staleA = corrupt_payload [OF app adm, of 301000 sample_provider 301000
      "sample_admin_provider (Rejected Thrown) (Rejected Thrown)"]
  show ?thesis
    using fresh stale staleA
    by (simp add: n isLess_def timeSinceLastFetch_def sample_App_def sample_Admin_def)
qed

subsection \<open>Concurrent listings\<close>












subsection \<open>Failures of the provider\<close>




section \<open>Closing a pull request\<close>

lemma closeLocally_twice:
  "closeLocally n r (closeLocally n r pr) = closeLocally n r pr"
  by (simp add: closeLocally_def)

lemma deletePullRequest_ok:
  assumes "patchPull p repoName prNumber = Ok b"
      and "parseCached rt (localStorageA s) = Inr cachedData"
  shows "deletePullRequest rt p prNumber repoName s =
           s\<lparr>pullRequests := map (closeLocally prNumber repoName) (pullRequests s),
             localStorageA := (localStorageA s)
               (''allPullRequestsData'' \<mapsto>
                  JSON_stringify rt
                    (withPullRequests cachedData
                       (map (closeLocally prNumber repoName) (pullRequests s)))),
             deletingPR := None\<rparr>"
  using assms
  by (simp add: deletePullRequest_def deletePullRequest_try_def setItem_def Let_def)

lemma pullRequests_deletePullRequest_ok:
  assumes "patchPull p repoName prNumber = Ok b"
  shows "pullRequests (deletePullRequest rt p prNumber repoName s) =
           map (closeLocally prNumber repoName) (pullRequests s)"
  using assms
  by (simp add: deletePullRequest_def deletePullRequest_try_def Let_def split: sum.splits)

text \<open>
  Claim C10. A close call is successful when the \<open>PATCH\<close> answers \<open>ok\<close> and the stored
  payload, if there is one, parses. Then the list of pull requests keeps its length and
  order; an entry whose number and repository name both match the arguments becomes the
  same record with \<open>state\<close> set to \<open>closed\<close>, every other entry is unchanged; the
  repositories list, the error and the loading flag are unchanged; and the payload slot is
  rewritten with an object whose pull requests are exactly the updated list and whose
  repositories are those of the stored object, the other slots being left alone.
\<close>

theorem close_changes_only_state:
  assumes "patchPull p repoName prNumber = Ok b"
      and "parseCached rt (localStorageA s) = Inr cachedData"
      and "s' = deletePullRequest rt p prNumber repoName s"
  shows "length (pullRequests s') = length (pullRequests s) \<and>
         (\<forall>i < length (pullRequests s).
            pullRequests s' ! i =
              (if number (pullRequests s ! i) = prNumber \<and>
                  repo_name (repository (pullRequests s ! i)) = repoName
               then (pullRequests s ! i)\<lparr>state := ''closed''\<rparr>
               else pullRequests s ! i)) \<and>
         repositoriesA s' = repositoriesA s \<and>
         errorA s' = errorA s \<and> loadingA s' = loadingA s \<and> fetchesA s' = fetchesA s \<and>
         (\<exists>w. localStorageA s' =
                 (localStorageA s)(''allPullRequestsData'' \<mapsto> JSON_stringify rt w) \<and>
               cached_pullRequests w = pullRequests s' \<and>
               cached_repositories w =
                 (case cachedData of None \<Rightarrow> None | Some d \<Rightarrow> cached_repositories d))"
proof -
  let ?upd = "map (closeLocally prNumber repoName) (pullRequests s)"
  have s': "s' = s\<lparr>pullRequests := ?upd,
             localStorageA := (localStorageA s)
               (''allPullRequestsData'' \<mapsto> JSON_stringify rt (withPullRequests cachedData ?upd)),
             deletingPR := None\<rparr>"
    using deletePullRequest_ok [OF assms(1,2)] assms(3) by simp
  have w: "cached_pullRequests (withPullRequests cachedData ?upd) = ?upd"
    "cached_repositories (withPullRequests cachedData ?upd) =
       (case cachedData of None \<Rightarrow> None | Some d \<Rightarrow> cached_repositories d)"
    by (simp_all add: withPullRequests_def split: option.splits)
  have st: "\<exists>w. localStorageA s' =
                 (localStorageA s)(''allPullRequestsData'' \<mapsto> JSON_stringify rt w) \<and>
               cached_pullRequests w = pullRequests s' \<and>
               cached_repositories w =
                 (case cachedData of None \<Rightarrow> None | Some d \<Rightarrow> cached_repositories d)"
    using w by (intro exI [of _ "withPullRequests cachedData ?upd"]) (simp add: s')
  have el: "\<forall>i < length (pullRequests s).
            pullRequests s' ! i =
              (if number (pullRequests s ! i) = prNumber \<and>
                  repo_name (repository (pullRequests s ! i)) = repoName
               then (pullRequests s ! i)\<lparr>state := ''closed''\<rparr>
               else pullRequests s ! i)"
    by (simp add: s' closeLocally_def)
  show ?thesis
    using st el by (simp add: s')
qed

theorem close_changes_only_state_witness:
  "pullRequests (deletePullRequest sample_admin_runtime
      (sample_admin_provider (Rejected Thrown) (Rejected Thrown)) 7 ''demo'' two_pulls) ! 0 =
     sample_pull\<lparr>state := ''closed''\<rparr> \<and>
   pullRequests (deletePullRequest sample_admin_runtime
      (sample_admin_provider (Rejected Thrown) (Rejected Thrown)) 7 ''demo'' two_pulls) ! 1 =
     sample_pull\<lparr>number := 8\<rparr> \<and>
   length (pullRequests (deletePullRequest sample_admin_runtime
      (sample_admin_provider (Rejected Thrown) (Rejected Thrown)) 7 ''demo'' two_pulls)) = 2 \<and>
   repositoriesA (deletePullRequest sample_admin_runtime
      (sample_admin_provider (Rejected Thrown) (Rejected Thrown)) 7 ''demo'' two_pulls) = Some []"
proof -
  let ?p = "sample_admin_provider (Rejected Thrown) (Rejected Thrown)"
  have ok: "patchPull ?p ''demo'' 7 = Ok (Inr ())"
    by (simp add: sample_defs)
  have parsed: "parseCached sample_admin_runtime (localStorageA two_pulls) = Inr (Some sample_cache)"
    by (simp add: two_pulls_def parseCached_def getItem_def sample_Admin_def sample_admin_runtime_def)
  have prs: "pullRequests two_pulls = [sample_pull, sample_pull\<lparr>number := 8\<rparr>]"
    "repositoriesA two_pulls = Some []"
    by (simp_all add: two_pulls_def sample_Admin_def)
  have n: "number sample_pull = 7" "repo_name (repository sample_pull) = ''demo''"
    by (simp_all add: sample_pull_def)
  note th = close_changes_only_state [OF ok parsed refl]
  have 0: "0 < length (pullRequests two_pulls)" and 1: "1 < length (pullRequests two_pulls)"
    by (simp_all add: prs)
  from th have el: "\<forall>i < length (pullRequests two_pulls).
            pullRequests (deletePullRequest sample_admin_runtime ?p 7 ''demo'' two_pulls) ! i =
              (if number (pullRequests two_pulls ! i) = 7 \<and>
                  repo_name (repository (pullRequests two_pulls ! i)) = ''demo''
               then (pullRequests two_pulls ! i)\<lparr>state := ''closed''\<rparr>
               else pullRequests two_pulls ! i)"
    by blast
  show ?thesis
    using th el [rule_format, OF 0] el [rule_format, OF 1] by (simp add: prs n)
qed

text \<open>
  Claim C8. The local close-update is idempotent on any list, and leaves a list alone in
  which every matching pull request is already closed. Closing the same pull request a
  second time (the provider answering \<open>ok\<close> again, the stored payload parsing) raises no
  error and changes nothing but the payload slot, which is written again with the same
  list of pull requests; when that is the string already stored, the state after the
  second close is the state after the first.
\<close>

theorem close_is_idempotent:
  assumes "patchPull p repoName prNumber = Ok b"
      and "s1 = deletePullRequest rt p prNumber repoName s"
      and "parseCached rt (localStorageA s1) = Inr cachedData"
  shows "map (closeLocally prNumber repoName) (map (closeLocally prNumber repoName) prs) =
           map (closeLocally prNumber repoName) prs \<and>
         ((\<forall>pr \<in> set prs. number pr = prNumber \<and> repo_name (repository pr) = repoName \<longrightarrow>
             state pr = ''closed'') \<longrightarrow>
           map (closeLocally prNumber repoName) prs = prs) \<and>
         deletePullRequest rt p prNumber repoName s1 =
           s1\<lparr>localStorageA := (localStorageA s1)
                (''allPullRequestsData'' \<mapsto>
                   JSON_stringify rt (withPullRequests cachedData (pullRequests s1)))\<rparr> \<and>
         (localStorageA s1 ''allPullRequestsData'' =
            Some (JSON_stringify rt (withPullRequests cachedData (pullRequests s1))) \<longrightarrow>
          deletePullRequest rt p prNumber repoName s1 = s1)"
proof -
  have a: "map (closeLocally prNumber repoName) (map (closeLocally prNumber repoName) prs) =
           map (closeLocally prNumber repoName) prs"
    by (simp add: closeLocally_twice)
  have b: "map (closeLocally prNumber repoName) prs = prs"
    if "\<forall>pr \<in> set prs. number pr = prNumber \<and> repo_name (repository pr) = repoName \<longrightarrow>
             state pr = ''closed''"
  proof (rule map_idI)
    fix pr assume "pr \<in> set prs"
    with that show "closeLocally prNumber repoName pr = pr"
      by (auto simp add: closeLocally_def)
  qed
  have prs1: "pullRequests s1 = map (closeLocally prNumber repoName) (pullRequests s)"
    using pullRequests_deletePullRequest_ok [OF assms(1)] assms(2) by simp
  have d1: "deletingPR s1 = None"
    using assms(2) by (simp add: deletePullRequest_def split: prod.splits option.splits)
  have same: "map (closeLocally prNumber repoName) (pullRequests s1) = pullRequests s1"
    by (simp add: prs1 closeLocally_twice)
  have c: "deletePullRequest rt p prNumber repoName s1 =
           s1\<lparr>localStorageA := (localStorageA s1)
                (''allPullRequestsData'' \<mapsto>
                   JSON_stringify rt (withPullRequests cachedData (pullRequests s1)))\<rparr>"
    using deletePullRequest_ok [OF assms(1,3)] d1 by (simp add: same)
  have d: "deletePullRequest rt p prNumber repoName s1 = s1"
    if "localStorageA s1 ''allPullRequestsData'' =
            Some (JSON_stringify rt (withPullRequests cachedData (pullRequests s1)))"
    using c that by (simp add: map_upd_triv)
  show ?thesis
    using a b c d by blast
qed

theorem close_is_idempotent_witness:
  "deletePullRequest sample_admin_runtime (sample_admin_provider (Rejected Thrown) (Rejected Thrown))
     7 ''demo''
     (deletePullRequest sample_admin_runtime
        (sample_admin_provider (Rejected Thrown) (Rejected Thrown)) 7 ''demo''
        (sample_Admin ''cached'' ''1000'')) =
   deletePullRequest sample_admin_runtime
     (sample_admin_provider (Rejected Thrown) (Rejected Thrown)) 7 ''demo''
     (sample_Admin ''cached'' ''1000'') \<and>
   deletePullRequest sample_admin_runtime
     (sample_admin_provider (Rejected Thrown) (Rejected Thrown)) 7 ''demo''
     (sample_Admin ''cached'' ''1000'') =
   (sample_Admin ''cached'' ''1000'')
     \<lparr>pullRequests := [sample_pull\<lparr>state := ''closed''\<rparr>],
      localStorageA := [''prLastFetchTime'' \<mapsto> ''1000'', ''allPullRequestsData'' \<mapsto> ''closed'']\<rparr>"
proof -
  let ?p = "sample_admin_provider (Rejected Thrown) (Rejected Thrown)"
  let ?s1 = "deletePullRequest sample_admin_runtime ?p 7 ''demo'' (sample_Admin ''cached'' ''1000'')"
  have s1: "?s1 = (sample_Admin ''cached'' ''1000'')
     \<lparr>pullRequests := [sample_pull\<lparr>state := ''closed''\<rparr>],
      localStorageA := [''prLastFetchTime'' \<mapsto> ''1000'', ''allPullRequestsData'' \<mapsto> ''closed'']\<rparr>"
    by (simp add: deletePullRequest_def deletePullRequest_try_def parseCached_def closeLocally_def
        withPullRequests_def getItem_def setItem_def sample_defs)
  have ok: "patchPull ?p ''demo'' 7 = Ok (Inr ())"
    by (simp add: sample_defs)
  have parsed: "parseCached sample_admin_runtime (localStorageA ?s1) = Inr (Some sample_closed_cache)"
    unfolding s1 by (simp add: parseCached_def getItem_def sample_Admin_def sample_admin_runtime_def)
  have slot: "localStorageA ?s1 ''allPullRequestsData'' =
      Some (JSON_stringify sample_admin_runtime
              (withPullRequests (Some sample_closed_cache) (pullRequests ?s1)))"
    unfolding s1 by (simp add: withPullRequests_def sample_defs)
  have "deletePullRequest sample_admin_runtime ?p 7 ''demo'' ?s1 = ?s1"
    using close_is_idempotent [OF ok refl parsed] slot by blast
  then show ?thesis
    using s1 by simp
qed

section \<open>Building a repository record\<close>

lemma fetchRepoLanguages_failed:
  "failed (repoLanguages p n) \<Longrightarrow> fetchRepoLanguages p n = []"
  by (simp add: failed_def fetchRepoLanguages_def split: fetched.splits sum.splits)

lemma fetchLastCommit_failed:
  "failed (repoCommits p n) \<Longrightarrow> fetchLastCommit p n = None"
  by (simp add: failed_def fetchLastCommit_def split: fetched.splits sum.splits)

lemma fetchReadmeContent_failed:
  "failed (repoReadme p n) \<Longrightarrow> fetchReadmeContent p n = None"
  by (simp add: failed_def fetchReadmeContent_def split: fetched.splits sum.splits)

text \<open>
  Claim C6. For every repository the provider lists: a failed languages request leaves
  the record with an empty language map, a failed commits request with no last commit, a
  failed README request with no README excerpt; the record is built all the same, and
  the listing returns one record per listed repository whatever the auxiliary requests
  did.
\<close>

theorem auxiliary_failures_degrade:
  "(failed (repoLanguages p (api_full_name r)) \<longrightarrow> languages (buildRepository p r) = []) \<and>
   (failed (repoCommits p (api_full_name r)) \<longrightarrow> lastCommit (buildRepository p r) = None) \<and>
   (failed (repoReadme p (api_full_name r)) \<longrightarrow> readmeContent (buildRepository p r) = None) \<and>
   name (buildRepository p r) = api_name r \<and>
   url (buildRepository p r) = api_html_url r \<and>
   (orgRepos p org = Ok (Inr rs) \<longrightarrow>
      fetchOrganizationRepos p org = Inr (map (buildRepository p) rs))"
  by (simp add: buildRepository_def fetchOrganizationRepos_def fetchRepoLanguages_failed
      fetchLastCommit_failed fetchReadmeContent_failed)

theorem auxiliary_failures_degrade_witness:
  "fetchOrganizationRepos (sample_provider_of (Ok (Inr [sample_api_repo]))) ORGANIZATION_NAME =
     Inr [\<lparr> name = ''demo'', url = ''https://github.com/G2HackFest/demo'',
            readmeUrl = ''https://github.com/G2HackFest/demo#readme'',
            description = ''No description provided'',
            languages = [], lastCommit = None, readmeContent = None \<rparr>]"
proof -
  let ?p = "sample_provider_of (Ok (Inr [sample_api_repo]))"
  have f: "failed (repoLanguages ?p (api_full_name sample_api_repo))"
    "failed (repoCommits ?p (api_full_name sample_api_repo))"
    "failed (repoReadme ?p (api_full_name sample_api_repo))"
    "orgRepos ?p ORGANIZATION_NAME = Ok (Inr [sample_api_repo])"
    by (simp_all add: failed_def sample_defs)
  have r: "buildRepository ?p sample_api_repo =
      \<lparr> name = ''demo'', url = ''https://github.com/G2HackFest/demo'',
            readmeUrl = ''https://github.com/G2HackFest/demo#readme'',
            description = ''No description provided'',
            languages = languages (buildRepository ?p sample_api_repo),
            lastCommit = lastCommit (buildRepository ?p sample_api_repo),
            readmeContent = readmeContent (buildRepository ?p sample_api_repo) \<rparr>"
    by (simp add: buildRepository_def orElse_def sample_defs)
  show ?thesis
    using auxiliary_failures_degrade [of ?p sample_api_repo ORGANIZATION_NAME "[sample_api_repo]"] f r
    by simp
qed

section \<open>Rounding to a double\<close>

lemma quotient_of_pos:
  assumes "0 < x" "quotient_of x = (p, q)"
  shows "0 < p" "0 < q" "x = of_int p / of_int q"
proof -
  show q: "0 < q" using assms(2) by (rule quotient_of_denom_pos)
  show x: "x = of_int p / of_int q" using assms(2) by (rule quotient_of_div)
  from assms(1) x q show "0 < p"
    by (simp add: zero_less_divide_iff)
qed

lemma bitlen_powi_bounds:
  assumes "0 < (n::int)"
  shows "(2::rat) powi (bitlen n - 1) \<le> of_int n" "of_int n < (2::rat) powi (bitlen n)"
proof -
  from bitlen_bounds [OF assms]
  have lo: "2 ^ nat (bitlen n - 1) \<le> n" and hi: "n < 2 ^ nat (bitlen n)" by auto
  have b1: "1 \<le> bitlen n"
    using assms bitlen_eq_zero_iff [of n] bitlen_nonneg [of n] by linarith
  have "(of_int (2 ^ nat (bitlen n - 1)) :: rat) \<le> of_int n"
    using lo by (simp only: of_int_le_iff)
  then show "(2::rat) powi (bitlen n - 1) \<le> of_int n"
    using b1 by (simp add: power_int_def)
  have "(of_int n :: rat) < of_int (2 ^ nat (bitlen n))"
    using hi by (simp only: of_int_less_iff)
  then show "of_int n < (2::rat) powi (bitlen n)"
    using b1 by (simp add: power_int_def)
qed

lemma expo_bounds:
  assumes "0 < x"
  shows "2 powi (expo x) \<le> x" "x < 2 powi (expo x + 1)"
proof -
  obtain p q where pq: "quotient_of x = (p, q)" by (cases "quotient_of x")
  note f = quotient_of_pos [OF assms pq]
  let ?d = "bitlen p - bitlen q"
  have P: "(2::rat) powi (bitlen p - 1) \<le> of_int p" "of_int p < (2::rat) powi (bitlen p)"
    using bitlen_powi_bounds [OF f(1)] by auto
  have Q: "(2::rat) powi (bitlen q - 1) \<le> of_int q" "of_int q < (2::rat) powi (bitlen q)"
    using bitlen_powi_bounds [OF f(2)] by auto
  have qpos: "(0::rat) < of_int q" using f(2) by simp
  have up: "x < 2 powi (?d + 1)"
  proof -
    have "x * of_int q = of_int p" using f(3) qpos by simp
    also have "\<dots> < 2 powi (bitlen p)" by (rule P(2))
    also have "\<dots> = 2 powi (?d + 1) * 2 powi (bitlen q - 1)"
      by (simp add: power_int_add [symmetric])
    also have "\<dots> \<le> 2 powi (?d + 1) * of_int q"
      using Q(1) by (simp add: mult_left_mono)
    finally show ?thesis using qpos by simp
  qed
  have lo: "2 powi (?d - 1) < x"
  proof -
    have "(2::rat) powi (?d - 1) * of_int q < 2 powi (?d - 1) * 2 powi (bitlen q)"
      using Q(2) by (simp add: mult_strict_left_mono)
    also have "\<dots> = 2 powi (bitlen p - 1)"
      by (simp add: power_int_add [symmetric])
    also have "\<dots> \<le> of_int p" by (rule P(1))
    also have "\<dots> = x * of_int q" using f(3) qpos by simp
    finally show ?thesis using qpos by simp
  qed
  have e: "expo x = (if 2 powi ?d \<le> x then ?d else ?d - 1)"
    by (simp add: expo_def pq Let_def)
  show "2 powi (expo x) \<le> x"
    using lo by (simp add: e)
  show "x < 2 powi (expo x + 1)"
    using up by (simp add: e not_le)
qed

lemma rne_error: "\<bar>of_int (rne y) - y\<bar> \<le> 1 / 2"
proof -
  define f where "f = \<lfloor>y\<rfloor>"
  have b: "of_int f \<le> y" "y < of_int f + 1"
    unfolding f_def by linarith+
  have r: "rne y = (if y - of_int f < 1 / 2 then f else if 1 / 2 < y - of_int f then f + 1
                    else if even f then f else f + 1)"
    by (simp add: rne_def Let_def f_def)
  consider "y - of_int f < 1 / 2" | "1 / 2 < y - of_int f" | "y - of_int f = 1 / 2"
    by linarith
  then show ?thesis
  proof cases
    case 1
    then have "rne y = f" by (simp add: r)
    with 1 b show ?thesis by simp
  next
    case 2
    then have "rne y = f + 1" by (simp add: r)
    with 2 b show ?thesis by simp
  next
    case 3
    then have "rne y = f \<or> rne y = f + 1" by (simp add: r)
    with 3 show ?thesis by auto
  qed
qed

lemma rne_of_int [simp]: "rne (of_int n) = n"
  by (simp add: rne_def)

lemma ulp_pos: "0 < ulp x"
  by (simp add: ulp_def)

lemma fl_pos_eq: "0 < x \<Longrightarrow> fl x = of_int (rne (x / ulp x)) * ulp x"
  by (simp add: fl_def)

lemma fl_error_ulp:
  assumes "0 < x"
  shows "\<bar>fl x - x\<bar> \<le> ulp x / 2"
proof -
  have u: "0 < ulp x" by (rule ulp_pos)
  have "fl x - x = (of_int (rne (x / ulp x)) - x / ulp x) * ulp x"
    using u assms by (simp add: fl_pos_eq left_diff_distrib)
  then have "\<bar>fl x - x\<bar> = \<bar>of_int (rne (x / ulp x)) - x / ulp x\<bar> * ulp x"
    using u by (simp add: abs_mult)
  also have "\<dots> \<le> 1 / 2 * ulp x"
    using rne_error [of "x / ulp x"] u by (intro mult_right_mono) simp_all
  finally show ?thesis by simp
qed

lemma half_ulp_le:
  assumes "0 < x"
  shows "ulp x / 2 \<le> x / 2 ^ 53"
proof -
  have "ulp x / 2 = 2 powi (expo x) / 2 ^ 53"
    by (simp add: ulp_def power_int_diff)
  also have "\<dots> \<le> x / 2 ^ 53"
    using expo_bounds(1) [OF assms] by (simp add: divide_right_mono)
  finally show ?thesis .
qed

lemma fl_error:
  assumes "0 < x"
  shows "\<bar>fl x - x\<bar> \<le> x / 2 ^ 53"
  using fl_error_ulp [OF assms] half_ulp_le [OF assms] by linarith

lemma fl_zero [simp]: "fl 0 = 0"
  by (simp add: fl_def)

lemma fl_nonneg: "0 \<le> x \<Longrightarrow> 0 \<le> fl x"
proof (cases "x = 0")
  case False
  assume "0 \<le> x"
  with False have x: "0 < x" by simp
  have "x / 2 ^ 53 \<le> x" using x by (simp add: divide_le_eq)
  with fl_error [OF x] show ?thesis by linarith
qed simp

lemma expo_lt:
  assumes "0 < x" "x < 2 powi n"
  shows "expo x < n"
proof (rule ccontr)
  assume "\<not> expo x < n"
  then have "n \<le> expo x" by simp
  then have "(2::rat) powi n \<le> 2 powi (expo x)"
    by (intro power_int_increasing) simp_all
  with expo_bounds(1) [OF assms(1)] assms(2) show False by linarith
qed

lemma fl_of_int:
  assumes "0 \<le> n" "n < 2 ^ 53"
  shows "fl (of_int n) = of_int n"
proof (cases "n = 0")
  case False
  with assms have x: "(0::rat) < of_int n" by simp
  have "(of_int n :: rat) < of_int (2 ^ 53)"
    using assms(2) by (simp only: of_int_less_iff)
  then have "(of_int n :: rat) < 2 powi 53" by simp
  from expo_lt [OF x this] have e: "expo (of_int n) \<le> 52" by simp
  define k where "k = nat (52 - expo (of_int n :: rat))"
  have u: "ulp (of_int n) = 1 / 2 ^ k"
    using e by (simp add: ulp_def k_def power_int_def power_one_over)
  have "of_int n / ulp (of_int n) = (of_int (n * 2 ^ k) :: rat)"
    by (simp add: u)
  then have "rne (of_int n / ulp (of_int n)) = n * 2 ^ k"
    by (simp only: rne_of_int)
  then show ?thesis
    using x by (simp add: fl_pos_eq u)
qed simp

lemma fl_of_nat:
  assumes "n < 2 ^ 53"
  shows "fl (of_nat n) = of_nat n"
proof -
  have "int n < 2 ^ 53" using assms by (simp add: of_nat_less_numeral_power_cancel_iff)
  from fl_of_int [of "int n", OF _ this] show ?thesis by simp
qed

lemma percent_error:
  fixes S T :: nat
  assumes "S \<le> T" "0 < T" "T < 2 ^ 44"
  shows "\<bar>fl (fl (of_nat S / of_nat T) * 100) - 100 * of_nat S / of_nat T\<bar>
           < 1 / (2 * of_nat T)"
proof (cases "S = 0")
  case True
  then show ?thesis using assms(2) by simp
next
  case False
  define q :: rat where "q = of_nat S / of_nat T"
  define a where "a = fl q"
  define b where "b = fl (a * 100)"
  have T: "(0::rat) < of_nat T" using assms(2) by simp
  have q: "0 < q" "q \<le> 1"
    using False assms(1) T by (simp_all add: q_def)
  have ea: "\<bar>a - q\<bar> \<le> q / 2 ^ 53"
    unfolding a_def by (rule fl_error [OF q(1)])
  have "q / 2 ^ 53 < q" using q(1) by (simp add: divide_less_eq)
  with ea have a: "0 < a" by linarith
  have "q / 2 ^ 53 \<le> 1 / 2 ^ 53" using q(2) by (simp add: divide_right_mono)
  with ea q(2) have a1: "a \<le> 1 + 1 / 2 ^ 53" "\<bar>a - q\<bar> \<le> 1 / 2 ^ 53" by linarith+
  have a100: "0 < a * 100" using a by simp
  have eb: "\<bar>b - a * 100\<bar> \<le> a * 100 / 2 ^ 53"
    unfolding b_def by (rule fl_error [OF a100])
  have "a * 100 / 2 ^ 53 \<le> (1 + 1 / 2 ^ 53) * 100 / 2 ^ 53"
    using a1(1) by (intro divide_right_mono mult_right_mono) simp_all
  with eb have eb': "\<bar>b - a * 100\<bar> \<le> (1 + 1 / 2 ^ 53) * 100 / 2 ^ 53" by linarith
  have "\<bar>b - 100 * q\<bar> = \<bar>(b - a * 100) + 100 * (a - q)\<bar>"
    by (simp add: algebra_simps)
  also have "\<dots> \<le> \<bar>b - a * 100\<bar> + \<bar>100 * (a - q)\<bar>"
    by (rule abs_triangle_ineq)
  also have "\<dots> = \<bar>b - a * 100\<bar> + 100 * \<bar>a - q\<bar>"
    using abs_mult [of 100 "a - q"] by simp
  also have "\<dots> \<le> (1 + 1 / 2 ^ 53) * 100 / 2 ^ 53 + 100 * (1 / 2 ^ 53)"
    using eb' a1(2) by (intro add_mono mult_left_mono) simp_all
  also have "\<dots> < 1 / 2 ^ 45" by simp
  also have "\<dots> \<le> 1 / (2 * of_nat T)"
  proof -
    have "(of_nat T :: rat) < of_nat (2 ^ 44)"
      using assms(3) by (simp only: of_nat_less_iff)
    then have "2 * (of_nat T :: rat) \<le> 2 ^ 45" by simp
    then show ?thesis using T by (intro divide_left_mono) simp_all
  qed
  finally show ?thesis
    by (simp add: b_def a_def q_def)
qed

lemma tie_iff:
  "isTie x \<longleftrightarrow> of_int (round x) = x + 1 / 2"
proof
  assume "isTie x"
  then have x: "x + 1 / 2 = of_int (\<lfloor>x\<rfloor> + 1)" by (simp add: isTie_def)
  have "round x = \<lfloor>x\<rfloor> + 1"
    unfolding round_def by (subst x) (simp only: floor_of_int)
  with x show "of_int (round x) = x + 1 / 2" by simp
next
  assume r: "of_int (round x) = x + 1 / 2"
  then have "x = of_int (round x - 1) + 1 / 2" by simp
  then have "\<lfloor>x\<rfloor> = round x - 1"
    by (intro floor_unique) simp_all
  with r show "isTie x" by (simp add: isTie_def)
qed

lemma round_near:
  fixes S T :: nat and b :: rat
  defines "s \<equiv> 100 * of_nat S / of_nat T"
  assumes T: "0 < T" and b: "\<bar>b - s\<bar> < 1 / (2 * of_nat T)"
  shows "\<not> isTie s \<Longrightarrow> \<lfloor>b + 1 / 2\<rfloor> = round s"
    and "isTie s \<Longrightarrow> \<lfloor>b + 1 / 2\<rfloor> = round s \<or> \<lfloor>b + 1 / 2\<rfloor> = round s - 1"
    and "\<bar>of_int \<lfloor>b + 1 / 2\<rfloor> - s\<bar> \<le> 1 / 2"
proof -
  define m where "m = round s"
  have Tr: "(0::rat) < of_nat T" using T by simp
  have m: "of_int m \<le> s + 1 / 2" "s + 1 / 2 < of_int m + 1"
    unfolding m_def round_def by linarith+
  have small: "1 / (2 * of_nat T) \<le> (1 / 2 :: rat)"
  proof -
    have "(1::rat) \<le> of_nat T" using T by simp
    then show ?thesis by (simp add: field_simps)
  qed
  have notie: "\<lfloor>b + 1 / 2\<rfloor> = m" if nt: "\<not> isTie s"
  proof -
    from nt have ne: "of_int m \<noteq> s + 1 / 2" by (simp add: tie_iff m_def)
    with m(1) have lo: "of_int m - 1 / 2 < s" by linarith
    then have "(of_int ((2 * m - 1) * int T) :: rat) < of_int (200 * int S)"
      using Tr by (simp add: s_def field_simps)
    then have "(2 * m - 1) * int T < 200 * int S" by (simp only: of_int_less_iff)
    then have "(2 * m - 1) * int T + 1 \<le> 200 * int S" by simp
    then have "(of_int ((2 * m - 1) * int T + 1) :: rat) \<le> of_int (200 * int S)"
      by (simp only: of_int_le_iff)
    then have "(of_int ((2 * m - 1) * int T + 1) :: rat) / (2 * of_nat T)
        \<le> of_int (200 * int S) / (2 * of_nat T)"
      using Tr by (intro divide_right_mono) simp_all
    moreover have "(of_int ((2 * m - 1) * int T + 1) :: rat) / (2 * of_nat T) =
        of_int m - 1 / 2 + 1 / (2 * of_nat T)"
      using Tr by (simp add: field_simps)
    moreover have sS: "(of_int (200 * int S) :: rat) / (2 * of_nat T) = s"
      by (simp add: s_def)
    ultimately have lo': "of_int m - 1 / 2 + 1 / (2 * of_nat T) \<le> s"
      by simp
    have "(of_int (200 * int S) :: rat) < of_int ((2 * m + 1) * int T)"
      using m(2) Tr by (simp add: s_def field_simps)
    then have "200 * int S < (2 * m + 1) * int T" by (simp only: of_int_less_iff)
    then have "200 * int S + 1 \<le> (2 * m + 1) * int T" by simp
    then have "(of_int (200 * int S + 1) :: rat) \<le> of_int ((2 * m + 1) * int T)"
      by (simp only: of_int_le_iff)
    then have "(of_int (200 * int S + 1) :: rat) / (2 * of_nat T)
        \<le> of_int ((2 * m + 1) * int T) / (2 * of_nat T)"
      using Tr by (intro divide_right_mono) simp_all
    moreover have "(of_int (200 * int S + 1) :: rat) / (2 * of_nat T) =
        s + 1 / (2 * of_nat T)"
      using Tr by (simp add: s_def field_simps)
    moreover have "(of_int ((2 * m + 1) * int T) :: rat) / (2 * of_nat T) = of_int m + 1 / 2"
      using Tr by (simp add: field_simps)
    ultimately have hi': "s + 1 / (2 * of_nat T) \<le> of_int m + 1 / 2"
      by simp
    from b lo' hi' have "of_int m \<le> b + 1 / 2" "b + 1 / 2 < of_int m + 1"
      by linarith+
    then show ?thesis by (intro floor_unique) simp_all
  qed
  have tie: "\<lfloor>b + 1 / 2\<rfloor> = m \<or> \<lfloor>b + 1 / 2\<rfloor> = m - 1" if t: "isTie s"
  proof -
    from t have e: "of_int m = s + 1 / 2" by (simp add: tie_iff m_def)
    from b small e have "of_int (m - 1) \<le> b + 1 / 2" "b + 1 / 2 < of_int (m - 1) + 2"
      by simp_all
    then have "m - 1 \<le> \<lfloor>b + 1 / 2\<rfloor>" "\<lfloor>b + 1 / 2\<rfloor> < m - 1 + 2"
      by (simp_all add: le_floor_iff floor_less_iff)
    then show ?thesis by linarith
  qed
  show "\<not> isTie s \<Longrightarrow> \<lfloor>b + 1 / 2\<rfloor> = round s"
    using notie by (simp add: m_def)
  show "isTie s \<Longrightarrow> \<lfloor>b + 1 / 2\<rfloor> = round s \<or> \<lfloor>b + 1 / 2\<rfloor> = round s - 1"
    using tie by (simp add: m_def)
  show "\<bar>of_int \<lfloor>b + 1 / 2\<rfloor> - s\<bar> \<le> 1 / 2"
  proof (cases "isTie s")
    case True
    then have e: "of_int m = s + 1 / 2" by (simp add: tie_iff m_def)
    from tie [OF True] show ?thesis
    proof
      assume "\<lfloor>b + 1 / 2\<rfloor> = m"
      with e show ?thesis by simp
    next
      assume "\<lfloor>b + 1 / 2\<rfloor> = m - 1"
      with e show ?thesis by simp
    qed
  next
    case False
    from notie [OF False] of_int_round_abs_le [of s] show ?thesis by (simp add: m_def)
  qed
qed

section \<open>The language statistics\<close>

subsection \<open>Objects\<close>

lemma keys_obj_insert: "set (map fst (obj_insert obj k v)) = insert k (set (map fst obj))"
proof (induction obj)
  case Nil
  show ?case by simp
next
  case (Cons a obj)
  obtain k' v' where a: "a = (k', v')" by (cases a)
  show ?case
    using Cons by (cases "comesBefore k k'") (simp_all add: a insert_commute)
qed

lemma distinct_obj_insert:
  "distinct (map fst obj) \<Longrightarrow> k \<notin> set (map fst obj) \<Longrightarrow> distinct (map fst (obj_insert obj k v))"
proof (induction obj)
  case Nil
  show ?case by simp
next
  case (Cons a obj)
  obtain k' v' where a: "a = (k', v')" by (cases a)
  from Cons.prems a have d: "distinct (map fst obj)" "k \<notin> set (map fst obj)"
    "k' \<notin> set (map fst obj)" "k \<noteq> k'"
    by auto
  from Cons.IH [OF d(1,2)] have ih: "distinct (map fst (obj_insert obj k v))" .
  have "k' \<notin> set (map fst (obj_insert obj k v))"
    using d(3,4) by (simp only: keys_obj_insert) simp
  with ih Cons.prems show ?case
    by (cases "comesBefore k k'") (simp_all add: a)
qed

lemma map_fst_update:
  "map fst (map (\<lambda>(k', v'). if k' = k then (k', v) else (k', v')) obj) = map fst obj"
  by (induction obj) auto

lemma update_absent:
  "k \<notin> set (map fst obj) \<Longrightarrow>
   map (\<lambda>(k', v'). if k' = k then (k', v) else (k', v')) obj = obj"
  by (induction obj) auto

lemma keys_obj_set: "set (map fst (obj_set obj k v)) = insert k (set (map fst obj))"
proof (cases "k \<in> set (map fst obj)")
  case True
  then have "obj_set obj k v = map (\<lambda>(k', v'). if k' = k then (k', v) else (k', v')) obj"
    by (simp add: obj_set_def)
  then have "map fst (obj_set obj k v) = map fst obj"
    by (simp only: map_fst_update)
  with True show ?thesis by (simp only: insert_absorb)
next
  case False
  then have "obj_set obj k v = obj_insert obj k v"
    by (simp add: obj_set_def)
  then show ?thesis by (simp only: keys_obj_insert)
qed

lemma distinct_obj_set:
  assumes "distinct (map fst obj)"
  shows "distinct (map fst (obj_set obj k v))"
proof (cases "k \<in> set (map fst obj)")
  case True
  then have "obj_set obj k v = map (\<lambda>(k', v'). if k' = k then (k', v) else (k', v')) obj"
    by (simp add: obj_set_def)
  then have "map fst (obj_set obj k v) = map fst obj"
    by (simp only: map_fst_update)
  with assms show ?thesis by simp
next
  case False
  then have "obj_set obj k v = obj_insert obj k v"
    by (simp add: obj_set_def)
  with distinct_obj_insert [OF assms False] show ?thesis by simp
qed

lemma map_of_obj_insert:
  "k \<notin> set (map fst obj) \<Longrightarrow>
   map_of (obj_insert obj k v) x = (if x = k then Some v else map_of obj x)"
proof (induction obj)
  case Nil
  show ?case by simp
next
  case (Cons a obj)
  obtain k' v' where a: "a = (k', v')" by (cases a)
  from Cons.prems a have n: "k \<notin> set (map fst obj)" "k \<noteq> k'" by auto
  show ?case
    using Cons.IH [OF n(1)] n(2)
    by (cases "comesBefore k k'") (auto simp add: a)
qed

lemma map_of_update:
  "map_of (map (\<lambda>(k', v'). if k' = k then (k', v) else (k', v')) obj) x =
     (if x = k then map_option (\<lambda>_. v) (map_of obj k) else map_of obj x)"
  by (induction obj) auto

lemma map_of_obj_set: "map_of (obj_set obj k v) = (map_of obj)(k \<mapsto> v)"
proof (cases "k \<in> set (map fst obj)")
  case True
  then obtain n where "map_of obj k = Some n"
    by (metis map_of_eq_None_iff not_Some_eq set_map)
  with True show ?thesis
    by (simp add: obj_set_def fun_eq_iff map_of_update)
next
  case False
  then show ?thesis by (simp add: obj_set_def fun_eq_iff map_of_obj_insert)
qed

lemma sum_obj_insert:
  "sum_list (map snd (obj_insert obj k v)) = sum_list (map snd obj) + (v::nat)"
proof (induction obj)
  case Nil
  show ?case by simp
next
  case (Cons a obj)
  obtain k' v' where a: "a = (k', v')" by (cases a)
  show ?case
    using Cons by (cases "comesBefore k k'") (simp_all add: a)
qed

lemma sum_update:
  "distinct (map fst obj) \<Longrightarrow> map_of obj k = Some n \<Longrightarrow>
   sum_list (map snd (map (\<lambda>(k', v'). if k' = k then (k', n + v) else (k', v')) obj)) =
     sum_list (map snd obj) + (v::nat)"
proof (induction obj)
  case Nil
  then show ?case by simp
next
  case (Cons a obj)
  obtain k' v' where a: "a = (k', v')" by (cases a)
  show ?case
  proof (cases "k' = k")
    case True
    with Cons.prems a have "k \<notin> set (map fst obj)" "v' = n" by auto
    with True a update_absent [of k obj "n + v"] show ?thesis by simp
  next
    case False
    with Cons a show ?thesis by simp
  qed
qed

lemma sum_addExact:
  assumes d: "distinct (map fst st)"
  shows "sum_list (map snd (addExact st (k, v))) = sum_list (map snd st) + v"
proof (cases "map_of st k")
  case None
  then have "k \<notin> set (map fst st)" by (simp add: map_of_eq_None_iff)
  with None show ?thesis
    by (simp add: addExact_def obj_set_def lookup0_def sum_obj_insert)
next
  case (Some n)
  then have "k \<in> set (map fst st)"
    by (metis map_of_eq_None_iff option.distinct(1) set_map)
  moreover have "lookup0 st k = n" by (simp add: lookup0_def Some)
  then have "addExact st (k, v) = obj_set st k (n + v)"
    by (simp add: addExact_def)
  ultimately have "addExact st (k, v) =
      map (\<lambda>(k', v'). if k' = k then (k', n + v) else (k', v')) st"
    by (simp add: obj_set_def)
  with sum_update [OF d Some, of v] show ?thesis by simp
qed

lemma lookup0_le_sum:
  "lookup0 st k \<le> sum_list (map snd st)"
proof (cases "map_of st k")
  case None
  then show ?thesis by (simp add: lookup0_def)
next
  case (Some n)
  then have "(k, n) \<in> set st" by (rule map_of_SomeD)
  then have "n \<in> set (map snd st)" by force
  then have "n \<le> sum_list (map snd st)" by (simp add: member_le_sum_list)
  with Some show ?thesis by (simp add: lookup0_def)
qed

subsection \<open>The exact totals\<close>

lemma lookup0_addExact:
  "lookup0 (addExact st (k, v)) nm = lookup0 st nm + (if k = nm then v else 0)"
  by (simp add: addExact_def lookup0_def map_of_obj_set)

lemma exact_fold:
  assumes "distinct (map fst st)"
  shows "distinct (map fst (foldl addExact st es))"
    and "set (map fst (foldl addExact st es)) = set (map fst st) \<union> fst ` set es"
    and "lookup0 (foldl addExact st es) nm =
           lookup0 st nm + (\<Sum>e\<leftarrow>es. if fst e = nm then snd e else 0)"
    and "sum_list (map snd (foldl addExact st es)) = sum_list (map snd st) + (\<Sum>e\<leftarrow>es. snd e)"
  using assms
proof (induction es arbitrary: st)
  case Nil
  {
    case 1 then show ?case by simp
  next
    case 2 then show ?case by simp
  next
    case 3 then show ?case by simp
  next
    case 4 then show ?case by simp
  }
next
  case (Cons e es)
  obtain k v where e: "e = (k, v)" by (cases e)
  {
    case 1
    then have d: "distinct (map fst (addExact st e))"
      by (simp add: e addExact_def distinct_obj_set)
    from Cons.IH(1) [OF d] show ?case by simp
  next
    case 2
    then have d: "distinct (map fst (addExact st e))"
      by (simp add: e addExact_def distinct_obj_set)
    have "set (map fst (addExact st e)) = insert k (set (map fst st))"
      by (simp only: e addExact_def prod.case keys_obj_set)
    with Cons.IH(2) [OF d] show ?case by (simp add: e)
  next
    case 3
    then have d: "distinct (map fst (addExact st e))"
      by (simp add: e addExact_def distinct_obj_set)
    from Cons.IH(3) [OF d] show ?case
      by (simp add: e lookup0_addExact)
  next
    case 4
    then have d: "distinct (map fst (addExact st e))"
      by (simp add: e addExact_def distinct_obj_set)
    from Cons.IH(4) [OF d] sum_addExact [OF 4, of k v] show ?case
      by (simp add: e)
  }
qed

lemma sum_nested:
  "(\<Sum>repo\<leftarrow>repos. \<Sum>entry\<leftarrow>languages repo. f entry) =
   (\<Sum>entry\<leftarrow>concat (map languages repos). (f entry :: nat))"
  by (induction repos) simp_all

lemma exactStats_distinct: "distinct (map fst (exactStats repos))"
  unfolding exactStats_def by (rule exact_fold(1)) simp

lemma exactStats_keys: "set (map fst (exactStats repos)) = languageNames repos"
  unfolding exactStats_def languageNames_def
  by (subst exact_fold(2)) auto

lemma exactStats_lookup: "lookup0 (exactStats repos) nm = languageTotal repos nm"
  unfolding exactStats_def languageTotal_def
  by (subst exact_fold(3)) (simp_all add: sum_nested lookup0_def)

lemma exactStats_sum: "sum_list (map snd (exactStats repos)) = grandTotal repos"
  unfolding exactStats_def grandTotal_def
  by (subst exact_fold(4)) (simp_all add: sum_nested)

lemma exactStats_entry:
  assumes "(nm, n) \<in> set (exactStats repos)"
  shows "n = languageTotal repos nm" "n \<le> grandTotal repos"
proof -
  from assms exactStats_distinct [of repos] have "map_of (exactStats repos) nm = Some n"
    by simp
  then have "lookup0 (exactStats repos) nm = n" by (simp add: lookup0_def)
  then show "n = languageTotal repos nm" by (simp add: exactStats_lookup)
  from \<open>lookup0 (exactStats repos) nm = n\<close> lookup0_le_sum [of "exactStats repos" nm]
  show "n \<le> grandTotal repos" by (simp add: exactStats_sum)
qed

subsection \<open>The computed totals are the exact ones while they fit a double\<close>

lemma proto_is_inherited: "''__proto__'' \<in> set objectPrototypeKeys"
  by (simp add: objectPrototypeKeys_def)

lemma ordinaryNames_iff:
  "ordinaryNames repos \<longleftrightarrow> languageNames repos \<inter> set objectPrototypeKeys = {}"
  by (auto simp add: ordinaryNames_def languageNames_def list_all_iff)

lemma ordinaryNames_entries:
  "ordinaryNames repos \<Longrightarrow>
   \<forall>e \<in> set (concat (map languages repos)). fst e \<notin> set objectPrototypeKeys"
  by (auto simp add: ordinaryNames_def list_all_iff)

lemma map_fst_emb [simp]: "map fst (emb st) = map fst st"
  by (induction st) (auto simp add: emb_def)

lemma map_of_emb: "map_of (emb st) k = map_option (\<lambda>n. Num (of_nat n)) (map_of st k)"
  by (induction st) (auto simp add: emb_def)

lemma orZero_emb:
  "k \<notin> set objectPrototypeKeys \<Longrightarrow>
   orZero (getProperty (emb st) k) = Num (of_nat (lookup0 st k))"
  by (simp add: getProperty_def map_of_emb orZero_def lookup0_def split: option.splits)

lemma emb_obj_insert: "emb (obj_insert st k n) = obj_insert (emb st) k (Num (of_nat n))"
  by (induction st) (auto simp add: emb_def)

lemma emb_update:
  "emb (map (\<lambda>(k', v'). if k' = k then (k', n) else (k', v')) st) =
   map (\<lambda>(k', v'). if k' = k then (k', Num (of_nat n)) else (k', v')) (emb st)"
  by (induction st) (auto simp add: emb_def)

lemma emb_obj_set: "emb (obj_set st k n) = obj_set (emb st) k (Num (of_nat n))"
  by (simp add: obj_set_def emb_obj_insert emb_update)

lemma num_add_of_nat:
  "a + b < 2 ^ 53 \<Longrightarrow> num_add (of_nat a) (of_nat b) = of_nat (a + b)"
  using fl_of_nat [of "a + b"] by (simp add: num_add_def)

lemma js_add_of_nat:
  "a + b < 2 ^ 53 \<Longrightarrow> js_add (Num (of_nat a)) (Num (of_nat b)) = Num (of_nat (a + b))"
  by (simp add: js_add_def num_add_of_nat)

lemma addLanguage_emb:
  assumes "lookup0 st k + v < 2 ^ 53" "k \<notin> set objectPrototypeKeys"
  shows "addLanguage (emb st) (k, v) = emb (addExact st (k, v))"
proof -
  have "k \<noteq> ''__proto__''"
    using assms(2) proto_is_inherited by auto
  then show ?thesis
    using assms
    by (simp add: addLanguage_def addExact_def setProperty_def emb_obj_set orZero_emb
        js_add_of_nat)
qed

lemma computed_fold:
  assumes "distinct (map fst st)"
      and "sum_list (map snd st) + (\<Sum>e\<leftarrow>es. snd e) < 2 ^ 53"
      and "\<forall>e \<in> set es. fst e \<notin> set objectPrototypeKeys"
  shows "foldl addLanguage (emb st) es = emb (foldl addExact st es)"
  using assms
proof (induction es arbitrary: st)
  case Nil
  show ?case by simp
next
  case (Cons e es)
  obtain k v where e: "e = (k, v)" by (cases e)
  have d: "distinct (map fst (addExact st e))"
    using Cons.prems(1) by (simp add: e addExact_def distinct_obj_set)
  have s: "sum_list (map snd (addExact st e)) = sum_list (map snd st) + v"
    using sum_addExact [OF Cons.prems(1), of k v] by (simp add: e)
  have "lookup0 st k + v \<le> sum_list (map snd st) + v"
    using lookup0_le_sum [of st k] by simp
  with Cons.prems(2) have "lookup0 st k + v < 2 ^ 53" by (simp add: e)
  moreover have "k \<notin> set objectPrototypeKeys"
    using Cons.prems(3) by (simp add: e)
  ultimately have step: "addLanguage (emb st) e = emb (addExact st e)"
    by (simp add: e addLanguage_emb)
  have b: "sum_list (map snd (addExact st e)) + (\<Sum>e\<leftarrow>es. snd e) < 2 ^ 53"
    unfolding s using Cons.prems(2) by (simp add: e)
  have o: "\<forall>e \<in> set es. fst e \<notin> set objectPrototypeKeys"
    using Cons.prems(3) by simp
  from Cons.IH [OF d b o] show ?case by (simp add: step)
qed

lemma foldl_nested:
  "foldl (\<lambda>stats repo. foldl f stats (languages repo)) st repos =
   foldl f st (concat (map languages repos))"
  by (induction repos arbitrary: st) simp_all

lemma collectStats_exact:
  assumes "grandTotal repos < 2 ^ 53" "ordinaryNames repos"
  shows "collectStats repos = emb (exactStats repos)"
proof -
  have "(\<Sum>e\<leftarrow>concat (map languages repos). snd e) < 2 ^ 53"
    using assms(1) by (simp add: grandTotal_def sum_nested)
  then have "foldl addLanguage (emb []) (concat (map languages repos)) =
      emb (foldl addExact [] (concat (map languages repos)))"
    using ordinaryNames_entries [OF assms(2)] by (intro computed_fold) simp_all
  then show ?thesis
    by (simp add: collectStats_def exactStats_def foldl_nested emb_def)
qed

lemma total_fold:
  "a + sum_list ns < 2 ^ 53 \<Longrightarrow>
   foldl js_add (Num (of_nat a)) (map (\<lambda>n. Num (of_nat n)) ns) = Num (of_nat (a + sum_list ns))"
proof (induction ns arbitrary: a)
  case Nil
  show ?case by simp
next
  case (Cons n ns)
  from Cons.prems have "a + n < 2 ^ 53" "(a + n) + sum_list ns < 2 ^ 53" by simp_all
  with Cons.IH [of "a + n"] show ?case
    by (simp add: js_add_of_nat add.assoc)
qed

lemma total_exact:
  assumes "grandTotal repos < 2 ^ 53"
  shows "foldl js_add (Num 0) (map snd (emb (exactStats repos))) = Num (of_nat (grandTotal repos))"
proof -
  have "map snd (emb (exactStats repos)) =
      map (\<lambda>n. Num (of_nat n)) (map snd (exactStats repos))"
    by (simp add: emb_def case_prod_beta)
  moreover have "0 + sum_list (map snd (exactStats repos)) < 2 ^ 53"
    using assms by (simp add: exactStats_sum)
  ultimately show ?thesis
    using total_fold [of 0 "map snd (exactStats repos)"] by (simp add: exactStats_sum)
qed

lemma languageStats_exact:
  assumes "grandTotal repos < 2 ^ 53" "ordinaryNames repos"
  shows "languageStats repos =
           map (\<lambda>(nm, n). \<lparr> stat_name = nm,
                            stat_value = percentage n (grandTotal repos),
                            stat_color = languageColor nm \<rparr>) (exactStats repos)"
proof -
  have c: "collectStats repos = emb (exactStats repos)"
    by (rule collectStats_exact [OF assms])
  have t: "foldl js_add (Num 0) (map snd (collectStats repos)) = Num (of_nat (grandTotal repos))"
    unfolding c by (rule total_exact [OF assms(1)])
  have "languageStats repos =
      map (\<lambda>(nm, val). \<lparr> stat_name = nm,
              stat_value = Math_round (num_mul (js_div val (Num (of_nat (grandTotal repos)))) 100),
              stat_color = languageColor nm \<rparr>) (collectStats repos)"
    by (simp only: languageStats_def Let_def t)
  also have "\<dots> = map (\<lambda>(nm, n). \<lparr> stat_name = nm,
                            stat_value = percentage n (grandTotal repos),
                            stat_color = languageColor nm \<rparr>) (exactStats repos)"
    by (simp add: c emb_def percentage_def js_div_def case_prod_beta comp_def)
  finally show ?thesis .
qed

lemma percentage_pos:
  "0 < T \<Longrightarrow>
   percentage n T = Fin (of_int \<lfloor>fl (fl (of_nat n / of_nat T) * 100) + 1 / 2\<rfloor>)"
  by (simp add: percentage_def num_div_def num_mul_def Math_round_def)

lemma percentage_zero: "percentage 0 0 = NaN"
  by (simp add: percentage_def num_div_def num_mul_def Math_round_def)

lemma percentage_near:
  assumes "n \<le> T" "0 < T" "T < 2 ^ 44"
  defines "s \<equiv> 100 * of_nat n / of_nat T"
  shows "\<exists>v. percentage n T = Fin (of_int v) \<and>
             (if isTie s then v = round s \<or> v = round s - 1 else v = round s) \<and>
             \<bar>of_int v - s\<bar> \<le> 1 / 2"
proof -
  let ?b = "fl (fl (of_nat n / of_nat T) * 100)"
  have b: "\<bar>?b - 100 * of_nat n / of_nat T\<bar> < 1 / (2 * of_nat T)"
    by (rule percent_error [OF assms(1,2,3)])
  note r = round_near [OF assms(2) b]
  have "percentage n T = Fin (of_int \<lfloor>?b + 1 / 2\<rfloor>)"
    by (rule percentage_pos [OF assms(2)])
  moreover have "if isTie s then \<lfloor>?b + 1 / 2\<rfloor> = round s \<or> \<lfloor>?b + 1 / 2\<rfloor> = round s - 1
                 else \<lfloor>?b + 1 / 2\<rfloor> = round s"
    using r(1,2) by (simp add: s_def)
  moreover have "\<bar>of_int \<lfloor>?b + 1 / 2\<rfloor> - s\<bar> \<le> 1 / 2"
    using r(3) by (simp add: s_def)
  ultimately show ?thesis by blast
qed

lemma stats_names:
  assumes "grandTotal repos < 2 ^ 53" "ordinaryNames repos"
  shows "map stat_name (languageStats repos) = map fst (exactStats repos)"
  by (simp add: languageStats_exact [OF assms] case_prod_beta comp_def)

lemma stats_entry:
  assumes "grandTotal repos < 2 ^ 53" "ordinaryNames repos" "e \<in> set (languageStats repos)"
  shows "stat_value e = percentage (languageTotal repos (stat_name e)) (grandTotal repos)"
    and "stat_color e = languageColor (stat_name e)"
    and "languageTotal repos (stat_name e) \<le> grandTotal repos"
proof -
  from assms obtain nm n where m: "(nm, n) \<in> set (exactStats repos)"
    and e: "e = \<lparr> stat_name = nm, stat_value = percentage n (grandTotal repos),
                   stat_color = languageColor nm \<rparr>"
    by (auto simp add: languageStats_exact [OF assms(1,2)])
  note x = exactStats_entry [OF m]
  show "stat_value e = percentage (languageTotal repos (stat_name e)) (grandTotal repos)"
    using x(1) by (simp add: e)
  show "stat_color e = languageColor (stat_name e)"
    by (simp add: e)
  show "languageTotal repos (stat_name e) \<le> grandTotal repos"
    using x by (simp add: e)
qed

lemma languageColor_gray:
  "nm \<notin> set [''TypeScript'', ''JavaScript'', ''Python'', ''Java'', ''Ruby'', ''Go''] \<Longrightarrow>
   languageColor nm = ''#6e7681''"
  by (simp add: languageColor_def)

lemma sum_list_scaled:
  "(\<Sum>x\<leftarrow>xs. 100 * of_nat (f x) / (t::rat)) = 100 * of_nat (\<Sum>x\<leftarrow>xs. f x) / t"
  by (induction xs) (simp_all add: add_divide_distrib distrib_left)

lemma sum_list_close:
  fixes f g :: "'a \<Rightarrow> rat"
  assumes "\<And>x. x \<in> set xs \<Longrightarrow> \<bar>f x - g x\<bar> \<le> c"
  shows "\<bar>(\<Sum>x\<leftarrow>xs. f x) - (\<Sum>x\<leftarrow>xs. g x)\<bar> \<le> of_nat (length xs) * c"
  using assms
proof (induction xs)
  case Nil
  show ?case by simp
next
  case (Cons x xs)
  have 1: "\<bar>f x - g x\<bar> \<le> c" using Cons.prems by simp
  have 2: "\<bar>(\<Sum>x\<leftarrow>xs. f x) - (\<Sum>x\<leftarrow>xs. g x)\<bar> \<le> of_nat (length xs) * c"
    using Cons.IH Cons.prems by simp
  have "\<bar>(\<Sum>x\<leftarrow>x # xs. f x) - (\<Sum>x\<leftarrow>x # xs. g x)\<bar> =
        \<bar>(f x - g x) + ((\<Sum>x\<leftarrow>xs. f x) - (\<Sum>x\<leftarrow>xs. g x))\<bar>"
    by simp
  also have "\<dots> \<le> \<bar>f x - g x\<bar> + \<bar>(\<Sum>x\<leftarrow>xs. f x) - (\<Sum>x\<leftarrow>xs. g x)\<bar>"
    by (rule abs_triangle_ineq)
  also have "\<dots> \<le> c + of_nat (length xs) * c"
    using 1 2 by simp
  finally show ?case by (simp add: algebra_simps)
qed

lemma shares_sum:
  assumes "0 < grandTotal repos" "grandTotal repos < 2 ^ 53" "ordinaryNames repos"
  shows "(\<Sum>nm\<leftarrow>map stat_name (languageStats repos). share repos nm) = 100"
proof -
  have eq: "map (share repos) (map fst (exactStats repos)) =
        map (\<lambda>x. 100 * of_nat (snd x) / of_nat (grandTotal repos)) (exactStats repos)"
  proof (simp only: map_map, rule map_cong [OF refl])
    fix x assume x: "x \<in> set (exactStats repos)"
    obtain nm n where p: "x = (nm, n)" by (cases x)
    from exactStats_entry(1) [of nm n repos] x p
    show "(share repos \<circ> fst) x = 100 * of_nat (snd x) / of_nat (grandTotal repos)"
      by (simp add: share_def)
  qed
  have "(\<Sum>nm\<leftarrow>map stat_name (languageStats repos). share repos nm) =
        sum_list (map (share repos) (map fst (exactStats repos)))"
    by (simp only: stats_names [OF assms(2,3)] map_ident)
  also have "\<dots> = 100 * of_nat (\<Sum>x\<leftarrow>exactStats repos. snd x) / of_nat (grandTotal repos)"
    by (simp only: eq sum_list_scaled)
  also have "\<dots> = 100"
    using assms(1) by (simp add: exactStats_sum)
  finally show ?thesis .
qed

subsection \<open>Evaluation at the samples\<close>

lemmas obj_eval = exactStats_def repo_with_def addExact_def obj_set_def lookup0_def
  comesBefore_def isArrayIndex_def isDigit_def grandTotal_def languageTotal_def

lemmas names_eval = ordinaryNames_def repo_with_def objectPrototypeKeys_def

lemmas stats_eval = languageStats_def collectStats_def addLanguage_def getProperty_def
  setProperty_def orZero_def js_add_def js_div_def objectPrototypeKeys_def obj_set_def
  repo_with_def languageColor_def

text \<open>Keys that are array indices are enumerated first, in numeric order.\<close>

lemma array_index_keys_come_first: "exactStats [repo_with [(''Go'', 1), (''10'', 1), (''2'', 1), (''02'', 5), (''Go'', 7)]]
  = [(''2'', 1), (''10'', 1), (''Go'', 8), (''02'', 5)]"
  by (simp add: obj_eval indexValue_def)

lemma round_sample_1: "Math_round (num_mul (num_div 23 40) 100) = Fin 57"
  by code_simp

lemma round_sample_2: "Math_round (num_mul (num_div 17 40) 100) = Fin 43"
  by code_simp

lemma round_sample_3: "Math_round (num_mul (num_div 34199312414287 43018003036839) 100) = Fin 80"
  by code_simp

lemma round_sample_4: "Math_round (num_mul (num_div 8818690622552 43018003036839) 100) = Fin 21"
  by code_simp

lemma round_sample_5: "Math_round (num_mul (num_div 0 0) 100) = NaN"
  by code_simp

lemma round_sample_6: "Math_round (num_mul (num_div 1 3) 100) = Fin 33"
  by code_simp

lemma round_sample_7: "Math_round (num_mul (num_div 100 200) 100) = Fin 50"
  by code_simp

lemma round_sample_8: "Math_round (num_mul (num_div 5 5) 100) = Fin 100"
  by code_simp

lemma round_sample_9: "Math_round (num_mul NaN 100) = NaN"
  by code_simp

lemma add_sample: "num_add 0 5 = 5"
  by code_simp

lemma stats_thirds:
  "languageStats thirds =
   [\<lparr>stat_name = ''A'', stat_value = Fin 33, stat_color = ''#6e7681''\<rparr>,
    \<lparr>stat_name = ''B'', stat_value = Fin 33, stat_color = ''#6e7681''\<rparr>,
    \<lparr>stat_name = ''C'', stat_value = Fin 33, stat_color = ''#6e7681''\<rparr>]"
proof -
  have g: "grandTotal thirds = 3"
    by (simp add: thirds_def obj_eval)
  have x: "exactStats thirds = [(''A'', 1), (''B'', 1), (''C'', 1)]"
    by (simp add: thirds_def obj_eval)
  have o: "ordinaryNames thirds"
    by (simp add: thirds_def names_eval)
  have "grandTotal thirds < 2 ^ 53" by (simp add: g)
  from languageStats_exact [OF this o] show ?thesis
    by (simp add: g x percentage_def round_sample_6 languageColor_def)
qed

lemma stats_halves:
  "languageStats halves =
   [\<lparr>stat_name = ''A'', stat_value = Fin 50, stat_color = ''#6e7681''\<rparr>,
    \<lparr>stat_name = ''B'', stat_value = Fin 50, stat_color = ''#6e7681''\<rparr>]"
proof -
  have g: "grandTotal halves = 200"
    by (simp add: halves_def obj_eval)
  have x: "exactStats halves = [(''A'', 100), (''B'', 100)]"
    by (simp add: halves_def obj_eval)
  have o: "ordinaryNames halves"
    by (simp add: halves_def names_eval)
  have "grandTotal halves < 2 ^ 53" by (simp add: g)
  from languageStats_exact [OF this o] show ?thesis
    by (simp add: g x percentage_def round_sample_7 languageColor_def)
qed

lemma stats_tie_57:
  "languageStats tie_57 =
   [\<lparr>stat_name = ''A'', stat_value = Fin 57, stat_color = ''#6e7681''\<rparr>,
    \<lparr>stat_name = ''B'', stat_value = Fin 43, stat_color = ''#6e7681''\<rparr>]"
proof -
  have g: "grandTotal tie_57 = 40"
    by (simp add: tie_57_def obj_eval)
  have x: "exactStats tie_57 = [(''A'', 23), (''B'', 17)]"
    by (simp add: tie_57_def obj_eval)
  have o: "ordinaryNames tie_57"
    by (simp add: tie_57_def names_eval)
  have "grandTotal tie_57 < 2 ^ 53" by (simp add: g)
  from languageStats_exact [OF this o] show ?thesis
    by (simp add: g x percentage_def round_sample_1 round_sample_2 languageColor_def)
qed

lemma stats_huge:
  "languageStats huge =
   [\<lparr>stat_name = ''A'', stat_value = Fin 80, stat_color = ''#6e7681''\<rparr>,
    \<lparr>stat_name = ''B'', stat_value = Fin 21, stat_color = ''#6e7681''\<rparr>]"
proof -
  have g: "grandTotal huge = 43018003036839"
    by (simp add: huge_def obj_eval)
  have x: "exactStats huge = [(''A'', 34199312414287), (''B'', 8818690622552)]"
    by (simp add: huge_def obj_eval)
  have o: "ordinaryNames huge"
    by (simp add: huge_def names_eval)
  have "grandTotal huge < 2 ^ 53" by (simp add: g)
  from languageStats_exact [OF this o] show ?thesis
    by (simp add: g x percentage_def round_sample_3 round_sample_4 languageColor_def)
qed

lemma share_huge: "share huge ''A'' = 3419931241428700 / 43018003036839"
  by (simp add: share_def huge_def obj_eval)

lemma round_share_huge: "round (share huge ''A'') = 79"
  unfolding share_huge round_def by (simp add: floor_eq_iff)

lemma stats_inherited_name:
  "languageStats inherited_name =
   [\<lparr>stat_name = ''constructor'', stat_value = NaN, stat_color = ''#6e7681''\<rparr>]"
  by (simp add: inherited_name_def stats_eval round_sample_9)

lemma stats_proto_name:
  "languageStats proto_name =
   [\<lparr>stat_name = ''A'', stat_value = Fin 100, stat_color = ''#6e7681''\<rparr>]"
  by (simp add: proto_name_def stats_eval add_sample round_sample_8)

lemma totals_inherited_name:
  "grandTotal inherited_name = 5" "languageTotal inherited_name ''constructor'' = 5"
  "languageNames inherited_name = {''constructor''}"
  by (simp_all add: inherited_name_def obj_eval languageNames_def)

lemma totals_proto_name:
  "grandTotal proto_name = 10" "languageTotal proto_name ''A'' = 5"
  "languageNames proto_name = {''__proto__'', ''A''}"
  by (auto simp add: proto_name_def obj_eval languageNames_def)

subsection \<open>The claims about the aggregation\<close>

text \<open>
  Claim C3, as the code has it. The percentage is not always \<open>round(100 * sum / total)\<close>,
  and there is not always one entry per name.

  With 23 bytes of one language out of 40 the exact share is 57.5, which rounds to 58, but
  \<open>23 / 40\<close> is the double just below 0.575, its product with 100 is the double
  57.49999999999999, and \<open>Math.round\<close> gives 57.

  With a grand total of \<open>2^44\<close> bytes or more the same happens away from a tie: in the
  third sample the share of \<open>A\<close> is below 79.5 and rounds to 79, and the value is 80.

  A language named as a method of \<open>Object.prototype\<close>, such as \<open>constructor\<close>, is
  added to the inherited function, which gives a text: the total is a text as well, and
  every value is \<open>NaN\<close>. A language named \<open>__proto__\<close> gets no entry, and its bytes
  are not in the total the other values are computed with.
\<close>

theorem percentage_is_not_round:
  "languageStats tie_57 =
   [\<lparr>stat_name = ''A'', stat_value = Fin 57, stat_color = ''#6e7681''\<rparr>,
    \<lparr>stat_name = ''B'', stat_value = Fin 43, stat_color = ''#6e7681''\<rparr>] \<and>
   share tie_57 ''A'' = 115 / 2 \<and> round (share tie_57 ''A'') = 58 \<and>
   languageStats huge =
   [\<lparr>stat_name = ''A'', stat_value = Fin 80, stat_color = ''#6e7681''\<rparr>,
    \<lparr>stat_name = ''B'', stat_value = Fin 21, stat_color = ''#6e7681''\<rparr>] \<and>
   2 ^ 44 \<le> grandTotal huge \<and> \<not> isTie (share huge ''A'') \<and> round (share huge ''A'') = 79 \<and>
   languageStats inherited_name =
   [\<lparr>stat_name = ''constructor'', stat_value = NaN, stat_color = ''#6e7681''\<rparr>] \<and>
   grandTotal inherited_name = 5 \<and> share inherited_name ''constructor'' = 100 \<and>
   languageStats proto_name =
   [\<lparr>stat_name = ''A'', stat_value = Fin 100, stat_color = ''#6e7681''\<rparr>] \<and>
   languageNames proto_name = {''__proto__'', ''A''} \<and> share proto_name ''A'' = 50"
proof -
  have 1: "share tie_57 ''A'' = 115 / 2" "round (share tie_57 ''A'') = 58"
    by (simp_all add: share_def tie_57_def obj_eval round_def)
  have 2: "2 ^ 44 \<le> grandTotal huge"
    by (simp add: huge_def obj_eval)
  have 3: "\<not> isTie (share huge ''A'')"
    unfolding share_huge isTie_def by (simp add: floor_eq_iff [THEN iffD2, of 79])
  have 4: "share inherited_name ''constructor'' = 100" "share proto_name ''A'' = 50"
    by (simp_all add: share_def totals_inherited_name totals_proto_name)
  show ?thesis
    using 1 2 3 4
    by (simp add: stats_tie_57 stats_huge round_share_huge stats_inherited_name
        stats_proto_name totals_inherited_name totals_proto_name)
qed

text \<open>
  Claim C3, amended. For every repository sequence whose grand total is positive and below
  \<open>2^44\<close> bytes and in which no language is named as a property of \<open>Object.prototype\<close>,
  the aggregation returns exactly one entry per distinct language name. Its value is
  \<open>Math.round((sum / total) * 100)\<close> computed in doubles, where \<open>sum\<close> is the sum of
  that language's byte counts over all repositories and \<open>total\<close> the grand total; this
  is an integer, equal to \<open>round(100 * sum / total)\<close> whenever this exact share is not
  halfway between two integers, and equal to one of the two integers next to the share
  when it is. Its color is that of the fixed lookup, the gray \<open>#6e7681\<close> for a name the
  lookup does not list.
\<close>

theorem language_percentages:
  assumes "0 < grandTotal repos" "grandTotal repos < 2 ^ 44" "ordinaryNames repos"
  shows "distinct (map stat_name (languageStats repos)) \<and>
         set (map stat_name (languageStats repos)) = languageNames repos \<and>
         (\<forall>e \<in> set (languageStats repos).
            stat_value e =
              Math_round (num_mul (num_div (of_nat (languageTotal repos (stat_name e)))
                                           (of_nat (grandTotal repos))) 100) \<and>
            (\<exists>v. stat_value e = Fin (of_int v) \<and>
                 (if isTie (share repos (stat_name e))
                  then v = round (share repos (stat_name e)) \<or>
                       v = round (share repos (stat_name e)) - 1
                  else v = round (share repos (stat_name e)))) \<and>
            stat_color e = languageColor (stat_name e) \<and>
            (stat_name e \<notin> set [''TypeScript'', ''JavaScript'', ''Python'', ''Java'', ''Ruby'', ''Go'']
               \<longrightarrow> stat_color e = ''#6e7681''))"
proof -
  have small: "grandTotal repos < 2 ^ 53"
    using assms(2) by (rule less_trans) simp
  have 1: "distinct (map stat_name (languageStats repos))"
    by (simp only: stats_names [OF small assms(3)] exactStats_distinct)
  have 2: "set (map stat_name (languageStats repos)) = languageNames repos"
    by (simp only: stats_names [OF small assms(3)] exactStats_keys)
  have 3: "stat_value e =
              Math_round (num_mul (num_div (of_nat (languageTotal repos (stat_name e)))
                                           (of_nat (grandTotal repos))) 100) \<and>
           (\<exists>v. stat_value e = Fin (of_int v) \<and>
                 (if isTie (share repos (stat_name e))
                  then v = round (share repos (stat_name e)) \<or>
                       v = round (share repos (stat_name e)) - 1
                  else v = round (share repos (stat_name e)))) \<and>
            stat_color e = languageColor (stat_name e) \<and>
            (stat_name e \<notin> set [''TypeScript'', ''JavaScript'', ''Python'', ''Java'', ''Ruby'', ''Go'']
               \<longrightarrow> stat_color e = ''#6e7681'')"
    if e: "e \<in> set (languageStats repos)" for e
  proof -
    note s = stats_entry [OF small assms(3) e]
    from percentage_near [OF s(3) assms(1,2)]
    obtain v where v: "percentage (languageTotal repos (stat_name e)) (grandTotal repos) = Fin (of_int v)"
        "if isTie (share repos (stat_name e))
         then v = round (share repos (stat_name e)) \<or> v = round (share repos (stat_name e)) - 1
         else v = round (share repos (stat_name e))"
      unfolding share_def by blast
    have "\<exists>v. stat_value e = Fin (of_int v) \<and>
                 (if isTie (share repos (stat_name e))
                  then v = round (share repos (stat_name e)) \<or>
                       v = round (share repos (stat_name e)) - 1
                  else v = round (share repos (stat_name e)))"
      using v s(1) by (intro exI [of _ v]) simp
    moreover have "stat_name e \<notin> set [''TypeScript'', ''JavaScript'', ''Python'', ''Java'', ''Ruby'', ''Go'']
               \<longrightarrow> stat_color e = ''#6e7681''"
      using languageColor_gray [of "stat_name e"] s(2) by simp
    moreover have "stat_value e =
              Math_round (num_mul (num_div (of_nat (languageTotal repos (stat_name e)))
                                           (of_nat (grandTotal repos))) 100)"
      using s(1) by (simp only: percentage_def)
    ultimately show ?thesis using s(2) by blast
  qed
  show ?thesis
    using 1 2 3 by blast
qed

theorem language_percentages_witness:
  "distinct (map stat_name (languageStats halves)) \<and>
   set (map stat_name (languageStats halves)) = {''A'', ''B''} \<and>
   languageStats halves =
   [\<lparr>stat_name = ''A'', stat_value = Fin 50, stat_color = ''#6e7681''\<rparr>,
    \<lparr>stat_name = ''B'', stat_value = Fin 50, stat_color = ''#6e7681''\<rparr>] \<and>
   share halves ''A'' = 50 \<and> share halves ''B'' = 50"
proof -
  have g: "0 < grandTotal halves" "grandTotal halves < 2 ^ 44" "ordinaryNames halves"
    by (simp_all add: halves_def obj_eval names_eval)
  have n: "languageNames halves = {''A'', ''B''}"
    by (auto simp add: halves_def languageNames_def repo_with_def)
  have s: "share halves ''A'' = 50" "share halves ''B'' = 50"
    by (simp_all add: share_def halves_def obj_eval)
  from language_percentages [OF g] have "distinct (map stat_name (languageStats halves))"
    "set (map stat_name (languageStats halves)) = languageNames halves"
    by blast+
  then show ?thesis
    using stats_halves n s by simp
qed

text \<open>
  Claim C4, as the code has it. For a grand total of \<open>2^44\<close> bytes or more the double
  arithmetic can put a value further than 1/2 from its exact share: in the first sample
  the share of \<open>A\<close> is just under 79.5, the computed product is the double 79.5, and the
  value is 80. For a language named as a method of \<open>Object.prototype\<close> the value is not
  a number at all: in the second sample the only language has the share 100 and the value
  \<open>NaN\<close>.
\<close>

theorem half_bound_fails:
  "languageStats huge =
   [\<lparr>stat_name = ''A'', stat_value = Fin 80, stat_color = ''#6e7681''\<rparr>,
    \<lparr>stat_name = ''B'', stat_value = Fin 21, stat_color = ''#6e7681''\<rparr>] \<and>
   grandTotal huge = 43018003036839 \<and>
   1 / 2 < \<bar>80 - share huge ''A''\<bar> \<and>
   languageStats inherited_name =
   [\<lparr>stat_name = ''constructor'', stat_value = NaN, stat_color = ''#6e7681''\<rparr>] \<and>
   grandTotal inherited_name = 5 \<and> share inherited_name ''constructor'' = 100"
proof -
  have 1: "grandTotal huge = 43018003036839"
    by (simp add: huge_def obj_eval)
  have 2: "1 / 2 < \<bar>80 - share huge ''A''\<bar>"
    unfolding share_huge by simp
  have 3: "share inherited_name ''constructor'' = 100"
    by (simp add: share_def totals_inherited_name)
  show ?thesis
    using 1 2 3 by (simp add: stats_huge stats_inherited_name totals_inherited_name)
qed

text \<open>
  Claim C4, amended. For every repository sequence whose grand total is positive and below
  \<open>2^44\<close> bytes and in which no language is named as a property of \<open>Object.prototype\<close>,
  with \<open>k\<close> distinct language names: the exact shares of the entries sum to exactly 100;
  each entry's value is an integer that differs from its exact share by at most 1/2; there
  are \<open>k\<close> entries, and their values sum to 100 within \<open>k/2\<close>. The values are not
  corrected to sum to 100: three languages of equal size give 33, 33 and 33.
\<close>

theorem rounding_error_bound:
  assumes "0 < grandTotal repos" "grandTotal repos < 2 ^ 44" "ordinaryNames repos"
  shows "(\<Sum>nm\<leftarrow>map stat_name (languageStats repos). share repos nm) = 100 \<and>
         (\<forall>e \<in> set (languageStats repos).
            \<exists>v. stat_value e = Fin (of_int v) \<and>
                \<bar>of_int v - share repos (stat_name e)\<bar> \<le> 1 / 2) \<and>
         length (languageStats repos) = card (languageNames repos) \<and>
         \<bar>(\<Sum>e\<leftarrow>languageStats repos. finiteValue (stat_value e)) - 100\<bar>
            \<le> of_nat (card (languageNames repos)) / 2 \<and>
         (\<Sum>e\<leftarrow>languageStats thirds. finiteValue (stat_value e)) = 99"
proof -
  have small: "grandTotal repos < 2 ^ 53"
    using assms(2) by (rule less_trans) simp
  have 1: "(\<Sum>nm\<leftarrow>map stat_name (languageStats repos). share repos nm) = 100"
    by (rule shares_sum [OF assms(1) small assms(3)])
  have 2: "\<exists>v. stat_value e = Fin (of_int v) \<and> \<bar>of_int v - share repos (stat_name e)\<bar> \<le> 1 / 2"
    if e: "e \<in> set (languageStats repos)" for e
  proof -
    note s = stats_entry [OF small assms(3) e]
    from percentage_near [OF s(3) assms(1,2)] s(1) show ?thesis
      unfolding share_def by auto
  qed
  have 3: "length (languageStats repos) = card (languageNames repos)"
  proof -
    have "card (languageNames repos) = length (map fst (exactStats repos))"
      using distinct_card [OF exactStats_distinct [of repos]]
      by (simp only: exactStats_keys)
    also have "\<dots> = length (map stat_name (languageStats repos))"
      by (simp only: stats_names [OF small assms(3)])
    finally show ?thesis by simp
  qed
  have close: "\<bar>finiteValue (stat_value e) - share repos (stat_name e)\<bar> \<le> 1 / 2"
    if e: "e \<in> set (languageStats repos)" for e
    using 2 [OF e] by (auto simp add: finiteValue_def)
  have "\<bar>(\<Sum>e\<leftarrow>languageStats repos. finiteValue (stat_value e)) -
         (\<Sum>e\<leftarrow>languageStats repos. share repos (stat_name e))\<bar>
        \<le> of_nat (length (languageStats repos)) * (1 / 2)"
    by (rule sum_list_close) (rule close)
  moreover have "(\<Sum>e\<leftarrow>languageStats repos. share repos (stat_name e)) = 100"
    using 1 by (simp add: comp_def)
  ultimately have 4: "\<bar>(\<Sum>e\<leftarrow>languageStats repos. finiteValue (stat_value e)) - 100\<bar>
            \<le> of_nat (card (languageNames repos)) / 2"
    by (simp add: 3)
  have 5: "(\<Sum>e\<leftarrow>languageStats thirds. finiteValue (stat_value e)) = 99"
    by (simp add: stats_thirds finiteValue_def)
  show ?thesis
    using 1 2 3 4 5 by blast
qed

theorem rounding_error_bound_witness:
  "(\<Sum>nm\<leftarrow>[''A'', ''B'', ''C'']. share thirds nm) = 100 \<and>
   (\<Sum>e\<leftarrow>languageStats thirds. finiteValue (stat_value e)) = 99 \<and>
   \<bar>(99::rat) - 100\<bar> \<le> 3 / 2 \<and>
   length (languageStats thirds) = 3 \<and> card (languageNames thirds) = 3"
proof -
  have g: "0 < grandTotal thirds" "grandTotal thirds < 2 ^ 44" "ordinaryNames thirds"
    by (simp_all add: thirds_def obj_eval names_eval)
  note th = rounding_error_bound [OF g]
  have v: "(\<Sum>e\<leftarrow>languageStats thirds. finiteValue (stat_value e)) = 99"
    by (simp add: stats_thirds finiteValue_def)
  have l: "length (languageStats thirds) = 3"
    by (simp add: stats_thirds)
  from th have "(\<Sum>nm\<leftarrow>map stat_name (languageStats thirds). share thirds nm) = 100"
    "length (languageStats thirds) = card (languageNames thirds)"
    by blast+
  then show ?thesis
    using v l by (simp add: stats_thirds)
qed

text \<open>
  Claim C5. For the empty repository sequence the aggregation returns the empty sequence:
  no language is enumerated, so the division by the zero total is never reached.
\<close>

theorem languageStats_empty: "languageStats [] = []"
  by (simp add: languageStats_def collectStats_def)

text \<open>
  Claim C9. For the repository sequence \<open>[{A: 0}]\<close> the aggregation returns one entry,
  for \<open>A\<close>, whose value is \<open>NaN\<close>: the total is 0 and \<open>0 / 0\<close> is not guarded. The
  language data of a repository card does the same on \<open>{A: 0}\<close>.
\<close>

theorem zero_counts_give_NaN:
  "languageStats [repo_with [(''A'', 0)]] =
     [\<lparr>stat_name = ''A'', stat_value = NaN, stat_color = ''#6e7681''\<rparr>] \<and>
   languageData [(''A'', 0)] =
     [\<lparr>stat_name = ''A'', stat_value = NaN, stat_color = ''#6e7681''\<rparr>]"
proof -
  have g: "grandTotal [repo_with [(''A'', 0)]] = 0"
    by (simp add: obj_eval)
  have x: "exactStats [repo_with [(''A'', 0)]] = [(''A'', 0)]"
    by (simp add: obj_eval)
  have o: "ordinaryNames [repo_with [(''A'', 0)]]"
    by (simp add: names_eval)
  have "grandTotal [repo_with [(''A'', 0)]] < 2 ^ 53" by (simp add: g)
  from languageStats_exact [OF this o]
  have 1: "languageStats [repo_with [(''A'', 0)]] =
     [\<lparr>stat_name = ''A'', stat_value = NaN, stat_color = ''#6e7681''\<rparr>]"
    by (simp add: g x percentage_zero languageColor_def)
  have 2: "languageData [(''A'', 0)] =
     [\<lparr>stat_name = ''A'', stat_value = NaN, stat_color = ''#6e7681''\<rparr>]"
    by (simp add: languageData_def num_add_def round_sample_5 languageColors_def orElse_def)
  show ?thesis using 1 2 by simp
qed

end
